theory Spec2Isabelle
  imports Main
begin

section \<open>The SSE transport of src/src/transport.ts\<close>

text \<open>
  The theory embeds the class \<open>ServerSentEventsTransport\<close> (src/src/transport.ts) and the
  list of active servers of the plain server (src/server/mcp-server.ts). A transport object is
  a record of its fields; every method takes the record and returns the new one. An exception
  is a value: a method that can throw returns \<open>thrown + 'a\<close>, with \<open>Inl\<close> the thrown value.
  A string is the list of its code units, each below 256; a chunk of the stream is kept as the
  string that \<open>TextEncoder\<close> turns into its bytes.
\<close>

subsection \<open>Thrown values\<close>

text \<open>
  A thrown value is an instance of \<open>Error\<close> (its name and its message), or some other value,
  kept as what \<open>String(value)\<close> yields. \<open>toError\<close> is the expression
  \<open>e instanceof Error ? e : new Error(String(e))\<close>; \<open>errorMessage\<close> is
  \<open>e instanceof Error ? e.message : String(e)\<close>.
\<close>

datatype thrown = ErrorObject string string | NonError string

fun toError :: "thrown \<Rightarrow> thrown" where
  "toError (ErrorObject n m) = ErrorObject n m"
| "toError (NonError s) = ErrorObject ''Error'' s"

fun errorMessage :: "thrown \<Rightarrow> string" where
  "errorMessage (ErrorObject n m) = m"
| "errorMessage (NonError s) = s"

text \<open>
  The transport throws plain \<open>Error\<close> objects; the three below are the ones the
  specification calls AlreadyActiveError, StreamUnavailableError and NotConnectedError.
\<close>

definition AlreadyActiveError :: thrown where
  "AlreadyActiveError = ErrorObject ''Error'' ''Transport already active - cannot start again''"

definition StreamUnavailableError :: thrown where
  "StreamUnavailableError =
     ErrorObject ''Error'' ''Stream initialization failed - controller not available''"

definition NotConnectedError :: thrown where
  "NotConnectedError = ErrorObject ''Error'' ''Cannot send: transport not connected''"

text \<open>What the stream controller throws when the stream can no longer take a chunk or a close.\<close>

definition InvalidStateError :: thrown where
  "InvalidStateError = ErrorObject ''TypeError'' ''Invalid state: Controller is already closed''"

subsection \<open>The platform\<close>

text \<open>
  The transport calls functions that are not code of the repository: \<open>encodeURI\<close>,
  \<open>Request.json\<close> (the JSON parse of the request body), \<open>JSONRPCMessageSchema.parse\<close> of the
  MCP SDK, \<open>JSON.stringify\<close>, and the conversion of a number to its text in a template
  string (\<open>Number_toString\<close>, applied to the integer that was read; JavaScript prints the
  double nearest to it). They are parameters of the model, so that what is proved of the
  transport holds on every platform. \<open>'raw\<close> is the type of parsed JSON values, \<open>'msg\<close> the
  type \<open>JSONRPCMessage\<close>.
\<close>

record ('raw, 'msg) platform =
  encodeURI :: "string \<Rightarrow> string"
  JSON_parse :: "string \<Rightarrow> thrown + 'raw"
  JSONRPCMessageSchema_parse :: "'raw \<Rightarrow> thrown + 'msg"
  JSON_stringify :: "'msg \<Rightarrow> string"
  Number_toString :: "int \<Rightarrow> string"

subsection \<open>The readable stream\<close>

text \<open>
  \<open>eventStream\<close> is a \<open>ReadableStream\<close> of the platform with a default controller. The model
  keeps the slots of the Streams standard that the transport's calls read or write: the state
  (the transport never calls \<open>controller.error\<close>, so a stream is readable or closed), the
  close-requested flag, the queue of chunks not yet read, and whether a reader holds the lock.
  \<open>written\<close> is the history of every chunk that \<open>enqueue\<close> accepted.
\<close>

datatype stream_state = Readable | Closed

record readable_stream =
  state :: stream_state
  closeRequested :: bool
  queue :: "string list"
  locked :: bool
  written :: "string list"

definition new_ReadableStream :: readable_stream where
  "new_ReadableStream =
     \<lparr>state = Readable, closeRequested = False, queue = [], locked = False, written = []\<rparr>"

definition CanCloseOrEnqueue :: "readable_stream \<Rightarrow> bool" where
  "CanCloseOrEnqueue s \<longleftrightarrow> \<not> closeRequested s \<and> state s = Readable"

text \<open>\<open>controller.enqueue(chunk)\<close>: throws a TypeError unless the stream can take the chunk.\<close>

definition controller_enqueue :: "readable_stream \<Rightarrow> string \<Rightarrow> thrown + readable_stream" where
  "controller_enqueue s chunk =
     (if CanCloseOrEnqueue s
      then Inr (s\<lparr>queue := queue s @ [chunk], written := written s @ [chunk]\<rparr>)
      else Inl InvalidStateError)"

text \<open>
  \<open>controller.close()\<close>: throws a TypeError unless the stream can be closed; otherwise
  the close is requested, and the stream is closed at once only when its queue is empty.
\<close>

definition controller_close :: "readable_stream \<Rightarrow> thrown + readable_stream" where
  "controller_close s =
     (if CanCloseOrEnqueue s
      then Inr (s\<lparr>closeRequested := True,
                  state := (if queue s = [] then Closed else state s)\<rparr>)
      else Inl InvalidStateError)"

subsection \<open>The transport object\<close>

text \<open>
  \<open>streamController\<close> says whether the private field \<open>#streamController\<close> is non-null (it
  is then the controller of \<open>eventStream\<close>). The three handlers are optional fields: the
  model keeps whether each is set, and \<open>calls\<close> records every invocation of a handler, in
  order. A handler is taken to return normally.
\<close>

datatype 'msg callback = OnMessage 'msg | OnClose | OnError thrown

record 'msg transport =
  endpointUrl :: string
  sessionId :: string
  streamController :: bool
  eventStream :: readable_stream
  isActive :: bool
  onmessage :: bool
  onclose :: bool
  onerror :: bool
  calls :: "'msg callback list"

text \<open>\<open>this.onclose?.()\<close>, \<open>this.onerror?.(e)\<close> and \<open>this.onmessage?.(m)\<close>.\<close>

definition invoke_onclose :: "'msg transport \<Rightarrow> 'msg transport" where
  "invoke_onclose t = (if onclose t then t\<lparr>calls := calls t @ [OnClose]\<rparr> else t)"

definition invoke_onerror :: "thrown \<Rightarrow> 'msg transport \<Rightarrow> 'msg transport" where
  "invoke_onerror e t = (if onerror t then t\<lparr>calls := calls t @ [OnError e]\<rparr> else t)"

definition invoke_onmessage :: "'msg \<Rightarrow> 'msg transport \<Rightarrow> 'msg transport" where
  "invoke_onmessage m t = (if onmessage t then t\<lparr>calls := calls t @ [OnMessage m]\<rparr> else t)"

text \<open>
  The constructor (lines 32-46): the \<open>ReadableStream\<close> constructor runs the \<open>start\<close> callback
  of the underlying source at once, which stores the controller.
\<close>

definition constructor :: "string \<Rightarrow> string \<Rightarrow> 'msg transport" where
  "constructor url sid =
     \<lparr>endpointUrl = url, sessionId = sid, streamController = True,
      eventStream = new_ReadableStream, isActive = False,
      onmessage = False, onclose = False, onerror = False, calls = []\<rparr>"

text \<open>The \<open>cancel\<close> callback of the underlying source (lines 41-44).\<close>

definition source_cancel :: "'msg transport \<Rightarrow> 'msg transport" where
  "source_cancel t = invoke_onclose (t\<lparr>isActive := False\<rparr>)"

text \<open>
  ReadableStreamCancel of the standard: nothing on a closed stream; a readable stream is
  closed, its queue is reset, and the \<open>cancel\<close> callback of the underlying source runs.
\<close>

definition ReadableStreamCancel :: "'msg transport \<Rightarrow> 'msg transport" where
  "ReadableStreamCancel t =
     (case state (eventStream t) of
        Closed \<Rightarrow> t
      | Readable \<Rightarrow>
          source_cancel (t\<lparr>eventStream := (eventStream t)\<lparr>state := Closed, queue := []\<rparr>\<rparr>))"

text \<open>
  \<open>this.eventStream.cancel()\<close>: on a locked stream the returned promise is rejected and
  nothing else happens (the transport does not await it).
\<close>

definition eventStream_cancel :: "'msg transport \<Rightarrow> 'msg transport" where
  "eventStream_cancel t = (if locked (eventStream t) then t else ReadableStreamCancel t)"

text \<open>\<open>start()\<close> (lines 51-65).\<close>

definition connectionInfo :: "('raw, 'msg) platform \<Rightarrow> 'msg transport \<Rightarrow> string" where
  "connectionInfo P t =
     ''event: endpoint\<newline>data: '' @ encodeURI P (endpointUrl t) @ ''?sessionId='' @ sessionId t
       @ ''\<newline>\<newline>''"

definition start :: "('raw, 'msg) platform \<Rightarrow> 'msg transport \<Rightarrow> thrown + 'msg transport" where
  "start P t =
     (if isActive t then Inl AlreadyActiveError
      else if \<not> streamController t then Inl StreamUnavailableError
      else case controller_enqueue (eventStream t) (connectionInfo P t) of
             Inl e \<Rightarrow> Inl e
           | Inr s \<Rightarrow> Inr (t\<lparr>eventStream := s, isActive := True\<rparr>))"

text \<open>\<open>send(message)\<close> (lines 143-150).\<close>

definition formattedMessage :: "('raw, 'msg) platform \<Rightarrow> 'msg \<Rightarrow> string" where
  "formattedMessage P m = ''event: message\<newline>data: '' @ JSON_stringify P m @ ''\<newline>\<newline>''"

definition send :: "('raw, 'msg) platform \<Rightarrow> 'msg transport \<Rightarrow> 'msg \<Rightarrow> thrown + 'msg transport" where
  "send P t m =
     (if \<not> isActive t \<or> \<not> streamController t then Inl NotConnectedError
      else case controller_enqueue (eventStream t) (formattedMessage P m) of
             Inl e \<Rightarrow> Inl e
           | Inr s \<Rightarrow> Inr (t\<lparr>eventStream := s\<rparr>))"

text \<open>
  \<open>close()\<close> (lines 155-162): the controller is closed, the stream is cancelled, the flag
  is cleared and \<open>onclose\<close> is called, in this order.
\<close>

definition close :: "'msg transport \<Rightarrow> thrown + 'msg transport" where
  "close t =
     (if isActive t \<and> streamController t
      then case controller_close (eventStream t) of
             Inl e \<Rightarrow> Inl e
           | Inr s \<Rightarrow>
               Inr (invoke_onclose ((eventStream_cancel (t\<lparr>eventStream := s\<rparr>))\<lparr>isActive := False\<rparr>))
      else Inr t)"

subsection \<open>Inbound POST requests\<close>

text \<open>
  A request is what the handler reads of it: \<open>headers.get(name)\<close> for a lower-case name
  (\<open>None\<close> is \<open>null\<close>) and the body, whose length is its byte length when the text is ASCII.
  A response is its body text and status.
\<close>

record request =
  headers :: "string \<rightharpoonup> string"
  body :: string

record response =
  bodyText :: string
  status :: nat

definition MAX_MSG_SIZE :: int where
  "MAX_MSG_SIZE = 4 * 1024 * 1024"

text \<open>\<open>value || dflt\<close> on a string or \<open>null\<close>: \<open>null\<close> and the empty string are falsy.\<close>

fun or_default :: "string option \<Rightarrow> string \<Rightarrow> string" where
  "or_default None dflt = dflt"
| "or_default (Some v) dflt = (if v = [] then dflt else v)"

text \<open>\<open>haystack.includes(needle)\<close>: the needle occurs as a contiguous substring.\<close>

fun startsWith :: "string \<Rightarrow> string \<Rightarrow> bool" where
  "startsWith s [] = True"
| "startsWith [] (p # ps) = False"
| "startsWith (c # cs) (p # ps) = (c = p \<and> startsWith cs ps)"

fun String_includes :: "string \<Rightarrow> string \<Rightarrow> bool" where
  "String_includes [] needle = (needle = [])"
| "String_includes (c # cs) needle = (startsWith (c # cs) needle \<or> String_includes cs needle)"

text \<open>
  \<open>Number.parseInt(s, 10)\<close>: leading white space is skipped, then an optional sign, then
  the longest run of decimal digits is read; without a digit the result is NaN, here \<open>None\<close>.
  The number is kept exact (JavaScript rounds beyond \<open>2^53\<close>, which changes no comparison
  with \<open>MAX_MSG_SIZE\<close>).
\<close>

definition isWhiteSpace :: "char \<Rightarrow> bool" where
  "isWhiteSpace c \<longleftrightarrow>
     c \<in> set [CHR 0x09, CHR 0x0A, CHR 0x0B, CHR 0x0C, CHR 0x0D, CHR 0x20, CHR 0xA0]"

definition isDigit :: "char \<Rightarrow> bool" where
  "isDigit c \<longleftrightarrow> c \<in> set ''0123456789''"

definition digitValue :: "char \<Rightarrow> int" where
  "digitValue c = int (of_char c) - 48"

definition digitsValue :: "string \<Rightarrow> int" where
  "digitsValue ds = foldl (\<lambda>acc c. 10 * acc + digitValue c) 0 ds"

definition parseInt :: "string \<Rightarrow> int option" where
  "parseInt s =
     (let s1 = dropWhile isWhiteSpace s;
          sign = (case s1 of c # _ \<Rightarrow> (if c = CHR ''-'' then - 1 else 1) | [] \<Rightarrow> (1::int));
          s2 = (case s1 of c # r \<Rightarrow> (if c = CHR ''-'' \<or> c = CHR ''+'' then r else s1) | [] \<Rightarrow> s1);
          ds = takeWhile isDigit s2
      in if ds = [] then None else Some (sign * digitsValue ds))"

text \<open>\<open>contentLength > MAX_MSG_SIZE\<close>: a comparison with NaN is false.\<close>

fun exceeds :: "int option \<Rightarrow> int \<Rightarrow> bool" where
  "exceeds None limit = False"
| "exceeds (Some n) limit = (n > limit)"

text \<open>The decimal digits of a natural number.\<close>

fun decimal :: "nat \<Rightarrow> string" where
  "decimal n = (if n < 10 then [''0123456789'' ! n]
                else decimal (n div 10) @ [''0123456789'' ! (n mod 10)])"

declare decimal.simps [simp del]

text \<open>A number in a template string, \<open>${contentLength}\<close>: NaN or the text of the number.\<close>

fun template_number :: "('raw, 'msg) platform \<Rightarrow> int option \<Rightarrow> string" where
  "template_number P None = ''NaN''"
| "template_number P (Some n) = Number_toString P n"

text \<open>
  \<open>handleMessage(rawMessage)\<close> (lines 124-136). The result is the transport after the
  call and, when the call throws, the thrown error.
\<close>

definition handleMessage ::
  "('raw, 'msg) platform \<Rightarrow> 'msg transport \<Rightarrow> 'raw \<Rightarrow> 'msg transport \<times> thrown option" where
  "handleMessage P t rawMessage =
     (case JSONRPCMessageSchema_parse P rawMessage of
        Inr validatedMessage \<Rightarrow> (invoke_onmessage validatedMessage t, None)
      | Inl validationError \<Rightarrow>
          (let error = toError validationError in (invoke_onerror error t, Some error)))"

text \<open>
  \<open>handlePostMessage(request)\<close> (lines 90-117). Besides the response, the outcome holds the
  transport after the call and whether \<open>request.json()\<close> was called, that is, whether the
  body was read and parsed. The method awaits the body and the handler; it reads the fields of
  the transport only before the first \<open>await\<close> and writes none, so it is taken as one step.
\<close>

record 'msg post_outcome =
  response :: response
  transport_after :: "'msg transport"
  bodyUsed :: bool

text \<open>The \<open>catch\<close> block of \<open>handlePostMessage\<close> (lines 113-116).\<close>

definition post_catch :: "thrown \<Rightarrow> 'msg transport \<Rightarrow> 'msg post_outcome" where
  "post_catch error t =
     \<lparr>response = \<lparr>bodyText = ''Error processing message: '' @ errorMessage error, status = 400\<rparr>,
      transport_after = invoke_onerror (toError error) t,
      bodyUsed = True\<rparr>"

text \<open>
  Lines 108-112 with the \<open>catch\<close> block: \<open>request.json()\<close> reads and parses the whole body,
  \<open>handleMessage\<close> validates and delivers the value; either may throw into the \<open>catch\<close> block.
\<close>

definition process_body ::
  "('raw, 'msg) platform \<Rightarrow> 'msg transport \<Rightarrow> string \<Rightarrow> 'msg post_outcome" where
  "process_body P t bytes =
     (case JSON_parse P bytes of
        Inl error \<Rightarrow> post_catch error t
      | Inr messageData \<Rightarrow>
          (case handleMessage P t messageData of
             (t', None) \<Rightarrow>
               \<lparr>response = \<lparr>bodyText = ''Message processed'', status = 202\<rparr>,
                transport_after = t', bodyUsed = True\<rparr>
           | (t', Some error) \<Rightarrow> post_catch error t'))"

definition handlePostMessage ::
  "('raw, 'msg) platform \<Rightarrow> 'msg transport \<Rightarrow> request \<Rightarrow> 'msg post_outcome" where
  "handlePostMessage P t req =
     (if \<not> isActive t \<or> \<not> streamController t
      then \<lparr>response = \<lparr>bodyText = ''SSE connection not established'', status = 503\<rparr>,
            transport_after = t, bodyUsed = False\<rparr>
      else
        let contentType = or_default (headers req ''content-type'') [] in
        if \<not> String_includes contentType ''application/json''
        then \<lparr>response = \<lparr>bodyText = ''Invalid content type: '' @ contentType, status = 415\<rparr>,
              transport_after = t, bodyUsed = False\<rparr>
        else
          let contentLength = parseInt (or_default (headers req ''content-length'') ''0'') in
          if exceeds contentLength MAX_MSG_SIZE
          then \<lparr>response =
                  \<lparr>bodyText = ''Message exceeds size limit ('' @ template_number P contentLength
                            @ '' > '' @ template_number P (Some MAX_MSG_SIZE) @ '')'',
                   status = 413\<rparr>,
                transport_after = t, bodyUsed = False\<rparr>
          else process_body P t (body req))"

subsection \<open>The peer and interleavings\<close>

text \<open>
  The client end of the stream is the platform reading the response body. It takes the lock
  (\<open>getReader\<close>), reads a queued chunk (a read that empties the queue of a stream whose close
  was requested closes the stream), releases the lock, or cancels the stream when the client
  disconnects; a cancel through the reader runs ReadableStreamCancel whether or not the stream
  is locked. A read on an empty queue waits for the next chunk and is left out.
\<close>

definition peer_read :: "'msg transport \<Rightarrow> 'msg transport" where
  "peer_read t =
     (let s = eventStream t in
      case queue s of
        [] \<Rightarrow> t
      | chunk # rest \<Rightarrow>
          t\<lparr>eventStream :=
              s\<lparr>queue := rest,
                state := (if closeRequested s \<and> rest = [] then Closed else state s)\<rparr>\<rparr>)"

datatype 'msg action =
    Start | Send 'msg | Close | Post request
  | SetOnMessage bool | SetOnClose bool | SetOnError bool
  | PeerLock | PeerRead | PeerRelease | PeerCancel

text \<open>
  One call on the transport, one assignment to a handler field by the consumer (\<open>True\<close> a
  function, \<open>False\<close> \<open>undefined\<close>), or one move of the peer. A call that throws leaves the
  transport as it was.
\<close>

fun step :: "('raw, 'msg) platform \<Rightarrow> 'msg transport \<Rightarrow> 'msg action \<Rightarrow> 'msg transport" where
  "step P t Start = (case start P t of Inl e \<Rightarrow> t | Inr t' \<Rightarrow> t')"
| "step P t (Send m) = (case send P t m of Inl e \<Rightarrow> t | Inr t' \<Rightarrow> t')"
| "step P t Close = (case close t of Inl e \<Rightarrow> t | Inr t' \<Rightarrow> t')"
| "step P t (Post req) = transport_after (handlePostMessage P t req)"
| "step P t (SetOnMessage h) = t\<lparr>onmessage := h\<rparr>"
| "step P t (SetOnClose h) = t\<lparr>onclose := h\<rparr>"
| "step P t (SetOnError h) = t\<lparr>onerror := h\<rparr>"
| "step P t PeerLock = t\<lparr>eventStream := (eventStream t)\<lparr>locked := True\<rparr>\<rparr>"
| "step P t PeerRead = peer_read t"
| "step P t PeerRelease = t\<lparr>eventStream := (eventStream t)\<lparr>locked := False\<rparr>\<rparr>"
| "step P t PeerCancel = ReadableStreamCancel t"

definition run :: "('raw, 'msg) platform \<Rightarrow> 'msg transport \<Rightarrow> 'msg action list \<Rightarrow> 'msg transport" where
  "run P t acts = foldl (step P) t acts"

text \<open>How often \<open>onclose\<close> has been called.\<close>

definition onclose_count :: "'msg transport \<Rightarrow> nat" where
  "onclose_count t = count_list (calls t) OnClose"

text \<open>The transports that a program can reach: any interleaving, from a new transport.\<close>

definition reached ::
  "('raw, 'msg) platform \<Rightarrow> string \<Rightarrow> string \<Rightarrow> 'msg action list \<Rightarrow> 'msg transport" where
  "reached P url sid acts = run P (constructor url sid) acts"

subsection \<open>Invariants of the reachable transports\<close>

text \<open>
  An active transport has its controller, and its stream still takes chunks. An endpoint event
  is a chunk that starts with the \<open>event: endpoint\<close> line; the stream of a transport receives
  at most one, and once it has one and the transport is no longer active, it takes no more.
\<close>

definition transport_inv :: "'msg transport \<Rightarrow> bool" where
  "transport_inv t \<longleftrightarrow> (isActive t \<longrightarrow> streamController t \<and> CanCloseOrEnqueue (eventStream t))"

definition isEndpointEvent :: "string \<Rightarrow> bool" where
  "isEndpointEvent chunk = startsWith chunk ''event: endpoint''"

definition endpoint_events :: "'msg transport \<Rightarrow> string list" where
  "endpoint_events t = filter isEndpointEvent (written (eventStream t))"

definition endpoint_inv :: "'msg transport \<Rightarrow> bool" where
  "endpoint_inv t \<longleftrightarrow>
     length (endpoint_events t) \<le> 1 \<and>
     (endpoint_events t \<noteq> [] \<and> \<not> isActive t \<longrightarrow> \<not> CanCloseOrEnqueue (eventStream t))"

subsection \<open>The list of active servers of src/server/mcp-server.ts\<close>

text \<open>
  The plain server keeps its sessions in the array \<open>servers\<close>. An entry is a server object,
  here its identity and the session id of its transport. A new connection is registered by
  \<open>servers.push(server)\<close> (line 41), a POST looks its session up by
  \<open>servers.map(...).find((t) => t.sessionId === sessionId)\<close> (lines 55-57), and \<open>onclose\<close>
  removes the server by \<open>servers.filter((s) => s !== server)\<close> (line 45).
\<close>

record McpServer =
  objectId :: nat
  transportSessionId :: string

definition register :: "McpServer list \<Rightarrow> McpServer \<Rightarrow> McpServer list" where
  "register servers server = servers @ [server]"

definition lookup :: "McpServer list \<Rightarrow> string \<Rightarrow> McpServer option" where
  "lookup servers sid = find (\<lambda>s. transportSessionId s = sid) servers"

definition unregister :: "McpServer list \<Rightarrow> McpServer \<Rightarrow> McpServer list" where
  "unregister servers server = filter (\<lambda>s. objectId s \<noteq> objectId server) servers"

definition entries_for :: "string \<Rightarrow> McpServer list \<Rightarrow> McpServer list" where
  "entries_for sid servers = filter (\<lambda>s. transportSessionId s = sid) servers"

subsection \<open>The message codec\<close>

text \<open>
  Modelled from the spec: the Message Codec (sections 3 and 4.1). The source has no code for
  it: \<open>send\<close> calls \<open>JSON.stringify\<close>, \<open>handlePostMessage\<close> calls \<open>request.json()\<close> and
  \<open>handleMessage\<close> calls \<open>JSONRPCMessageSchema.parse\<close> of the MCP SDK. The codec below is one
  platform on which the transport can run: \<open>encode\<close> is a deterministic JSON serialisation,
  \<open>decode\<close> parses JSON text and checks the shape of the message.

  A JSON value is the tree of the JSON grammar. Numbers are the integers, kept exact; an
  object is the list of its members in order, and in a value that stands for a JavaScript
  object the keys are distinct (\<open>wf_json\<close>).
\<close>

datatype json =
    JNull | JBool bool | JNumber int | JString string
  | JArray "json list" | JObject "(string \<times> json) list"

text \<open>
  Modelled from the spec: the serialisation of a string, as \<open>JSON.stringify\<close> quotes it. The
  quote and the backslash are escaped, the control characters are written in their short form
  or as \<open>\u00XX\<close>, every other byte is copied.
\<close>

definition hexDigit :: "nat \<Rightarrow> char" where
  "hexDigit d = ''0123456789abcdef'' ! d"

text \<open>Modelled from the spec: the value of a hexadecimal digit of a \<open>\u\<close> escape.\<close>

definition unhex :: "char \<Rightarrow> nat option" where
  "unhex c =
     (if isDigit c then Some (of_char c - 48)
      else if c \<in> set ''abcdef'' then Some (of_char c - 87)
      else if c \<in> set ''ABCDEF'' then Some (of_char c - 55)
      else None)"

text \<open>Modelled from the spec: the text of one character inside a quoted string.\<close>

definition quoteChar :: "char \<Rightarrow> string" where
  "quoteChar c =
     (if c = CHR 0x22 then [CHR 0x5C, CHR 0x22]
      else if c = CHR 0x5C then [CHR 0x5C, CHR 0x5C]
      else if c = CHR 0x08 then [CHR 0x5C, CHR ''b'']
      else if c = CHR 0x0C then [CHR 0x5C, CHR ''f'']
      else if c = CHR 0x0A then [CHR 0x5C, CHR ''n'']
      else if c = CHR 0x0D then [CHR 0x5C, CHR ''r'']
      else if c = CHR 0x09 then [CHR 0x5C, CHR ''t'']
      else if (of_char c :: nat) < 32
        then [CHR 0x5C, CHR ''u'', CHR ''0'', CHR ''0'',
              hexDigit (of_char c div 16), hexDigit (of_char c mod 16)]
      else [c])"

text \<open>Modelled from the spec: a string between its quotes.\<close>

definition QuoteJSONString :: "string \<Rightarrow> string" where
  "QuoteJSONString s = CHR 0x22 # concat (map quoteChar s) @ [CHR 0x22]"

text \<open>
  Modelled from the spec: the parse of a string after its opening quote, up to the closing
  quote. It gives the string and the rest of the text. A raw control character and an unknown
  escape are errors; a \<open>\uXXXX\<close> escape is read when it denotes a byte.
\<close>

definition unescape :: "char \<Rightarrow> char option" where
  "unescape e =
     (if e = CHR 0x22 then Some (CHR 0x22)
      else if e = CHR 0x5C then Some (CHR 0x5C)
      else if e = CHR ''/'' then Some (CHR ''/'')
      else if e = CHR ''b'' then Some (CHR 0x08)
      else if e = CHR ''f'' then Some (CHR 0x0C)
      else if e = CHR ''n'' then Some (CHR 0x0A)
      else if e = CHR ''r'' then Some (CHR 0x0D)
      else if e = CHR ''t'' then Some (CHR 0x09)
      else None)"

text \<open>Modelled from the spec: one more character in front of a parsed string.\<close>

fun cons_result :: "char \<Rightarrow> (string \<times> string) option \<Rightarrow> (string \<times> string) option" where
  "cons_result c None = None"
| "cons_result c (Some (s, rest)) = Some (c # s, rest)"

text \<open>Modelled from the spec: the characters of a string up to the closing quote.\<close>

fun parse_chars :: "string \<Rightarrow> (string \<times> string) option" where
  "parse_chars [] = None"
| "parse_chars (c # cs) =
     (if c = CHR 0x22 then Some ([], cs)
      else if c = CHR 0x5C then
        (case cs of
           [] \<Rightarrow> None
         | e # r \<Rightarrow>
             if e = CHR ''u'' then
               (case r of
                  h1 # h2 # h3 # h4 # r' \<Rightarrow>
                    (case (unhex h1, unhex h2, unhex h3, unhex h4) of
                       (Some a, Some b, Some x, Some y) \<Rightarrow>
                         if a = 0 \<and> b = 0 then cons_result (char_of (16 * x + y)) (parse_chars r')
                         else None
                     | _ \<Rightarrow> None)
                | _ \<Rightarrow> None)
             else (case unescape e of
                     None \<Rightarrow> None
                   | Some d \<Rightarrow> cons_result d (parse_chars r)))
      else if (of_char c :: nat) < 32 then None
      else cons_result c (parse_chars cs))"

text \<open>Modelled from the spec: numbers. The parser refuses a leading zero; a fraction or an
  exponent is outside the model and refused as well.\<close>

definition print_number :: "int \<Rightarrow> string" where
  "print_number i = (if i < 0 then CHR ''-'' # decimal (nat (- i)) else decimal (nat i))"

text \<open>Modelled from the spec: the parse of a number and the rest of the text.\<close>

definition parse_number :: "string \<Rightarrow> (int \<times> string) option" where
  "parse_number s =
     (let neg = (case s of c # _ \<Rightarrow> c = CHR ''-'' | [] \<Rightarrow> False);
          s1 = (if neg then tl s else s);
          ds = takeWhile isDigit s1;
          rest = dropWhile isDigit s1
      in if ds = [] then None
         else if hd ds = CHR ''0'' \<and> tl ds \<noteq> [] then None
         else if (case rest of c # _ \<Rightarrow> c \<in> set ''.eE'' | [] \<Rightarrow> False) then None
         else Some (if neg then - digitsValue ds else digitsValue ds, rest))"

text \<open>Modelled from the spec: the serialisation of a value, without white space.\<close>

fun print_json :: "json \<Rightarrow> string"
  and print_elements :: "json list \<Rightarrow> string"
  and print_members :: "(string \<times> json) list \<Rightarrow> string" where
  "print_json JNull = ''null''"
| "print_json (JBool b) = (if b then ''true'' else ''false'')"
| "print_json (JNumber i) = print_number i"
| "print_json (JString s) = QuoteJSONString s"
| "print_json (JArray vs) = CHR ''['' # print_elements vs"
| "print_json (JObject kvs) = CHR ''{'' # print_members kvs"
| "print_elements [] = '']''"
| "print_elements (v # vs) =
     print_json v @ (if vs = [] then '']'' else CHR '','' # print_elements vs)"
| "print_members [] = ''}''"
| "print_members (kv # kvs) =
     QuoteJSONString (fst kv) @ CHR '':'' # print_json (snd kv)
       @ (if kvs = [] then ''}'' else CHR '','' # print_members kvs)"

text \<open>
  Modelled from the spec: the parse of a value. White space may stand before every token. A
  member whose key occurs again replaces the value of the earlier one, as in a JavaScript
  object. The recursion is bounded by fuel; \<open>parse_json\<close> gives it the length of the text, and
  a value must be followed by white space only.
\<close>

definition isJSONWhiteSpace :: "char \<Rightarrow> bool" where
  "isJSONWhiteSpace c \<longleftrightarrow> c \<in> set [CHR 0x20, CHR 0x09, CHR 0x0A, CHR 0x0D]"

text \<open>Modelled from the spec: the white space before a token is dropped.\<close>

definition skip_ws :: "string \<Rightarrow> string" where
  "skip_ws s = dropWhile isJSONWhiteSpace s"

text \<open>Modelled from the spec: the literals \<open>null\<close>, \<open>true\<close> and \<open>false\<close>.\<close>

definition parse_literal :: "string \<Rightarrow> json \<Rightarrow> string \<Rightarrow> (json \<times> string) option" where
  "parse_literal lit v s =
     (if take (length lit) s = lit then Some (v, drop (length lit) s) else None)"

text \<open>Modelled from the spec: a member is stored under its key, in place of an earlier one with that key.\<close>

fun upsert :: "string \<Rightarrow> json \<Rightarrow> (string \<times> json) list \<Rightarrow> (string \<times> json) list" where
  "upsert k v [] = [(k, v)]"
| "upsert k v (kv # al) = (if fst kv = k then (k, v) # al else kv # upsert k v al)"

text \<open>Modelled from the spec: the object of a sequence of parsed members.\<close>

definition make_object :: "(string \<times> json) list \<Rightarrow> json" where
  "make_object kvs = JObject (foldl (\<lambda>al kv. upsert (fst kv) (snd kv) al) [] kvs)"

text \<open>Modelled from the spec: the parse of a value, of the elements of an array and of the members of an object, each with the rest of the text.\<close>

fun parse_value :: "nat \<Rightarrow> string \<Rightarrow> (json \<times> string) option"
  and parse_elements :: "nat \<Rightarrow> string \<Rightarrow> (json list \<times> string) option"
  and parse_members :: "nat \<Rightarrow> string \<Rightarrow> ((string \<times> json) list \<times> string) option" where
  "parse_value 0 s = None"
| "parse_value (Suc n) s =
     (case skip_ws s of
        [] \<Rightarrow> None
      | c # cs \<Rightarrow>
          if c = CHR ''n'' then parse_literal ''null'' JNull (c # cs)
          else if c = CHR ''t'' then parse_literal ''true'' (JBool True) (c # cs)
          else if c = CHR ''f'' then parse_literal ''false'' (JBool False) (c # cs)
          else if c = CHR 0x22 then
            (case parse_chars cs of None \<Rightarrow> None | Some (str, r) \<Rightarrow> Some (JString str, r))
          else if c = CHR ''['' then
            (case skip_ws cs of
               [] \<Rightarrow> None
             | d # r \<Rightarrow>
                 if d = CHR '']'' then Some (JArray [], r)
                 else (case parse_elements n cs of
                         None \<Rightarrow> None
                       | Some (vs, r') \<Rightarrow> Some (JArray vs, r')))
          else if c = CHR ''{'' then
            (case skip_ws cs of
               [] \<Rightarrow> None
             | d # r \<Rightarrow>
                 if d = CHR ''}'' then Some (JObject [], r)
                 else (case parse_members n cs of
                         None \<Rightarrow> None
                       | Some (kvs, r') \<Rightarrow> Some (make_object kvs, r')))
          else (case parse_number (c # cs) of
                  None \<Rightarrow> None
                | Some (i, r) \<Rightarrow> Some (JNumber i, r)))"
| "parse_elements 0 s = None"
| "parse_elements (Suc n) s =
     (case parse_value n s of
        None \<Rightarrow> None
      | Some (v, r) \<Rightarrow>
          (case skip_ws r of
             [] \<Rightarrow> None
           | c # r' \<Rightarrow>
               if c = CHR '','' then
                 (case parse_elements n r' of
                    None \<Rightarrow> None
                  | Some (vs, r'') \<Rightarrow> Some (v # vs, r''))
               else if c = CHR '']'' then Some ([v], r')
               else None))"
| "parse_members 0 s = None"
| "parse_members (Suc n) s =
     (case skip_ws s of
        [] \<Rightarrow> None
      | q # cs \<Rightarrow>
          if q \<noteq> CHR 0x22 then None
          else
            (case parse_chars cs of
               None \<Rightarrow> None
             | Some (k, r) \<Rightarrow>
                 (case skip_ws r of
                    [] \<Rightarrow> None
                  | c # r1 \<Rightarrow>
                      if c \<noteq> CHR '':'' then None
                      else
                        (case parse_value n r1 of
                           None \<Rightarrow> None
                         | Some (v, r2) \<Rightarrow>
                             (case skip_ws r2 of
                                [] \<Rightarrow> None
                              | d # r3 \<Rightarrow>
                                  if d = CHR '','' then
                                    (case parse_members n r3 of
                                       None \<Rightarrow> None
                                     | Some (kvs, r4) \<Rightarrow> Some ((k, v) # kvs, r4))
                                  else if d = CHR ''}'' then Some ([(k, v)], r3)
                                  else None)))))"

text \<open>Modelled from the spec: the parse of a whole text.\<close>

definition parse_json :: "string \<Rightarrow> json option" where
  "parse_json s =
     (case parse_value (length s) s of
        None \<Rightarrow> None
      | Some (v, rest) \<Rightarrow> if skip_ws rest = [] then Some v else None)"

declare parse_value.simps [simp del] parse_elements.simps [simp del]
  parse_members.simps [simp del]

text \<open>The values that stand for JavaScript values: the keys of every object are distinct.\<close>

fun wf_json :: "json \<Rightarrow> bool"
  and wf_elements :: "json list \<Rightarrow> bool"
  and wf_members :: "(string \<times> json) list \<Rightarrow> bool" where
  "wf_json (JArray vs) = wf_elements vs"
| "wf_json (JObject kvs) = (distinct (map fst kvs) \<and> wf_members kvs)"
| "wf_json v = True"
| "wf_elements [] = True"
| "wf_elements (v # vs) = (wf_json v \<and> wf_elements vs)"
| "wf_members [] = True"
| "wf_members (kv # kvs) = (wf_json (snd kv) \<and> wf_members kvs)"

text \<open>What may follow a value inside a text: nothing, a comma or a closing bracket.\<close>

definition delimited :: "string \<Rightarrow> bool" where
  "delimited rest \<longleftrightarrow> (case rest of [] \<Rightarrow> True | c # _ \<Rightarrow> c \<in> set '',]}'')"

text \<open>Modelled from the spec: the characters with which the text of a value can start.\<close>

definition value_start :: "char \<Rightarrow> bool" where
  "value_start c \<longleftrightarrow> c \<in> set ''ntf[{-0123456789'' \<or> c = CHR 0x22"

text \<open>
  Modelled from the spec: a message is the envelope \<open>{id?, method?, params?, result?, error?}\<close>.
  It is a request (id and method, no result, no error), a notification (method, no id, no
  result, no error) or a response (id, no method, no params, and either a result or an error).
  An id is a string or a number. The payloads are JSON values.
\<close>

record message =
  msg_id :: "json option"
  msg_method :: "string option"
  msg_params :: "json option"
  msg_result :: "json option"
  msg_error :: "json option"

text \<open>Modelled from the spec: the shape of a request.\<close>

definition is_request :: "message \<Rightarrow> bool" where
  "is_request m \<longleftrightarrow>
     msg_id m \<noteq> None \<and> msg_method m \<noteq> None \<and> msg_result m = None \<and> msg_error m = None"

text \<open>Modelled from the spec: the shape of a notification.\<close>

definition is_notification :: "message \<Rightarrow> bool" where
  "is_notification m \<longleftrightarrow>
     msg_id m = None \<and> msg_method m \<noteq> None \<and> msg_result m = None \<and> msg_error m = None"

text \<open>Modelled from the spec: the shape of a response.\<close>

definition is_response :: "message \<Rightarrow> bool" where
  "is_response m \<longleftrightarrow>
     msg_id m \<noteq> None \<and> msg_method m = None \<and> msg_params m = None \<and>
     (msg_result m = None) \<noteq> (msg_error m = None)"

text \<open>Modelled from the spec: an id is a string or a number.\<close>

fun is_id :: "json \<Rightarrow> bool" where
  "is_id (JString s) = True"
| "is_id (JNumber i) = True"
| "is_id v = False"

text \<open>Modelled from the spec: an optional payload that is present stands for a JavaScript value.\<close>

fun wf_field :: "json option \<Rightarrow> bool" where
  "wf_field None = True"
| "wf_field (Some v) = wf_json v"

text \<open>Modelled from the spec: the valid messages.\<close>

definition valid_message :: "message \<Rightarrow> bool" where
  "valid_message m \<longleftrightarrow>
     (is_request m \<or> is_notification m \<or> is_response m) \<and>
     (case msg_id m of None \<Rightarrow> True | Some i \<Rightarrow> is_id i) \<and>
     wf_field (msg_params m) \<and> wf_field (msg_result m) \<and> wf_field (msg_error m)"

text \<open>Modelled from the spec: the member of an optional field, when the field is present.\<close>

fun member :: "string \<Rightarrow> json option \<Rightarrow> (string \<times> json) list" where
  "member k None = []"
| "member k (Some v) = [(k, v)]"

text \<open>Modelled from the spec: the JSON object of a message.\<close>

definition message_json :: "message \<Rightarrow> json" where
  "message_json m =
     JObject ((''jsonrpc'', JString ''2.0'') # member ''id'' (msg_id m)
       @ member ''method'' (map_option JString (msg_method m))
       @ member ''params'' (msg_params m) @ member ''result'' (msg_result m)
       @ member ''error'' (msg_error m))"

text \<open>
  Modelled from the spec: \<open>encode\<close>. The envelope is written as a JSON object with the member
  \<open>jsonrpc\<close> first, then the members that the message has.
\<close>

definition encode :: "message \<Rightarrow> string" where
  "encode m = print_json (message_json m)"

text \<open>
  Modelled from the spec: the validation of a parsed value. The value must be an object with
  \<open>"jsonrpc": "2.0"\<close> and no member besides the six of the envelope, its method a string, its
  id a string or a number, and it must have the shape of a request, a notification or a
  response. Any method name is accepted.
\<close>

definition JSONSyntaxError :: thrown where
  "JSONSyntaxError = ErrorObject ''SyntaxError'' ''Unexpected token in JSON''"

text \<open>Modelled from the spec: the error of a failed validation.\<close>

definition ValidationError :: thrown where
  "ValidationError = ErrorObject ''ValidationError'' ''Invalid JSON-RPC message''"

text \<open>Modelled from the spec: the string of a member that is a string.\<close>

fun as_string :: "json option \<Rightarrow> string option" where
  "as_string (Some (JString s)) = Some s"
| "as_string v = None"

text \<open>Modelled from the spec: a member that is absent or a string.\<close>

fun is_string_field :: "json option \<Rightarrow> bool" where
  "is_string_field None = True"
| "is_string_field (Some (JString s)) = True"
| "is_string_field (Some v) = False"

text \<open>Modelled from the spec: the validation proper.\<close>

fun validate :: "json \<Rightarrow> thrown + message" where
  "validate (JObject kvs) =
     (let m = \<lparr>msg_id = map_of kvs ''id'', msg_method = as_string (map_of kvs ''method''),
               msg_params = map_of kvs ''params'', msg_result = map_of kvs ''result'',
               msg_error = map_of kvs ''error''\<rparr>
      in if map_of kvs ''jsonrpc'' = Some (JString ''2.0'')
            \<and> set (map fst kvs) \<subseteq> set [''jsonrpc'', ''id'', ''method'', ''params'', ''result'', ''error'']
            \<and> is_string_field (map_of kvs ''method'')
            \<and> (case msg_id m of None \<Rightarrow> True | Some i \<Rightarrow> is_id i)
            \<and> (is_request m \<or> is_notification m \<or> is_response m)
         then Inr m else Inl ValidationError)"
| "validate v = Inl ValidationError"

text \<open>Modelled from the spec: \<open>request.json()\<close> on the bytes of a body, and \<open>decode\<close>.\<close>

definition Request_json :: "string \<Rightarrow> thrown + json" where
  "Request_json bytes =
     (case parse_json bytes of None \<Rightarrow> Inl JSONSyntaxError | Some v \<Rightarrow> Inr v)"

text \<open>Modelled from the spec: \<open>decode\<close>: the parse of the text, then the validation.\<close>

definition decode :: "string \<Rightarrow> thrown + message" where
  "decode s = (case Request_json s of Inl e \<Rightarrow> Inl e | Inr raw \<Rightarrow> validate raw)"

text \<open>
  \<open>encodeURI\<close> of ECMAScript on a byte string: the reserved and unreserved characters of a
  URI and \<open>#\<close> are kept; any other character is written as the percent-escaped bytes of its
  UTF-8 form, which is two bytes for a character from 128 on. The codec platform prints a
  number as the codec does, its numbers being the integers.
\<close>

definition percent :: "nat \<Rightarrow> string" where
  "percent b = [CHR ''%'', ''0123456789ABCDEF'' ! (b div 16), ''0123456789ABCDEF'' ! (b mod 16)]"

definition uriUnescaped :: "char \<Rightarrow> bool" where
  "uriUnescaped c \<longleftrightarrow>
     c \<in> set ''abcdefghijklmnopqrstuvwxyzABCDEFGHIJKLMNOPQRSTUVWXYZ0123456789''
     \<or> c \<in> set '';/?:@&=+$,-_.!~*()#'' \<or> c = CHR 0x27"

definition encodeURI_char :: "char \<Rightarrow> string" where
  "encodeURI_char c =
     (if uriUnescaped c then [c]
      else if (of_char c :: nat) < 128 then percent (of_char c)
      else percent (192 + of_char c div 64) @ percent (128 + of_char c mod 64))"

definition ECMA_encodeURI :: "string \<Rightarrow> string" where
  "ECMA_encodeURI s = concat (map encodeURI_char s)"

definition codec_platform :: "(json, message) platform" where
  "codec_platform =
     \<lparr>encodeURI = ECMA_encodeURI, JSON_parse = Request_json,
      JSONRPCMessageSchema_parse = validate, JSON_stringify = encode,
      Number_toString = print_number\<rparr>"

subsection \<open>Concrete runs\<close>

text \<open>
  The transport of the concrete runs is a new transport on the codec platform, after a list of
  actions. \<open>ping\<close> is a notification.
\<close>

definition ping :: message where
  "ping = \<lparr>msg_id = None, msg_method = Some ''ping'', msg_params = None, msg_result = None,
           msg_error = None\<rparr>"

definition test_transport :: "message action list \<Rightarrow> message transport" where
  "test_transport acts = reached codec_platform ''http://localhost/message'' ''s1'' acts"

text \<open>
  Requests for the concrete runs: a JSON request without a Content-Length header whose body is
  4 MiB and one byte of the letter a (not JSON, so its parse is a syntax error), and the same
  body declared as 10 bytes.
\<close>

definition unsized_request :: request where
  "unsized_request =
     \<lparr>headers = [''content-type'' \<mapsto> ''application/json''],
      body = replicate 4194305 (CHR ''a'')\<rparr>"

definition understated_request :: request where
  "understated_request =
     \<lparr>headers = [''content-type'' \<mapsto> ''application/json'', ''content-length'' \<mapsto> ''10''],
      body = replicate 4194305 (CHR ''a'')\<rparr>"

definition json_request :: "string \<Rightarrow> request" where
  "json_request b = \<lparr>headers = [''content-type'' \<mapsto> ''application/json''], body = b\<rparr>"

text \<open>
  A ping whose method name has 4 MiB and one letter, and the JSON request that carries it,
  declared as 10 bytes.
\<close>

definition long_method :: string where
  "long_method = replicate 4194305 (CHR ''a'')"

definition long_ping :: message where
  "long_ping = \<lparr>msg_id = None, msg_method = Some long_method, msg_params = None,
                msg_result = None, msg_error = None\<rparr>"

definition long_request :: request where
  "long_request =
     \<lparr>headers = [''content-type'' \<mapsto> ''application/json'', ''content-length'' \<mapsto> ''10''],
      body = encode long_ping\<rparr>"

section \<open>Properties\<close>

subsection \<open>The codec: parsing inverts printing\<close>

lemma unhex_hexDigit: "d < 16 \<Longrightarrow> unhex (hexDigit d) = Some d"
proof -
  have "list_all (\<lambda>d. unhex (hexDigit d) = Some d) [0..<16]"
    by code_simp
  then show "d < 16 \<Longrightarrow> unhex (hexDigit d) = Some d"
    by (simp add: list_all_iff)
qed

lemma parse_quoteChar:
  "parse_chars (quoteChar c @ rest) = cons_result c (parse_chars rest)"
proof -
  have h: "(of_char c :: nat) < 32 \<Longrightarrow>
      unhex (hexDigit (of_char c div 16)) = Some (of_char c div 16) \<and>
      unhex (hexDigit (of_char c mod 16)) = Some (of_char c mod 16)"
    by (simp add: unhex_hexDigit)
  have u: "unhex (CHR ''0'') = Some 0"
    by (simp add: unhex_def isDigit_def)
  show ?thesis
    by (auto simp: quoteChar_def unescape_def h u)
qed

lemma parse_chars_quoted:
  "parse_chars (concat (map quoteChar s) @ CHR 0x22 # rest) = Some (s, rest)"
  by (induction s) (simp_all add: parse_quoteChar del: parse_chars.simps(2), simp)

lemma digit_index:
  "k < 10 \<Longrightarrow> isDigit (''0123456789'' ! k) \<and> digitValue (''0123456789'' ! k) = int k"
proof -
  have "list_all (\<lambda>k. isDigit (''0123456789'' ! k) \<and> digitValue (''0123456789'' ! k) = int k)
          [0..<10]"
    by code_simp
  then show "k < 10 \<Longrightarrow> ?thesis" by (simp add: list_all_iff)
qed

lemma zero_index: "k < 10 \<Longrightarrow> (''0123456789'' ! k = CHR ''0'') = (k = 0)"
proof -
  have "list_all (\<lambda>k. (''0123456789'' ! k = CHR ''0'') = (k = 0)) [0..<10]"
    by code_simp
  then show "k < 10 \<Longrightarrow> ?thesis" by (simp add: list_all_iff)
qed

lemma decimal_digits: "\<forall>c \<in> set (decimal n). isDigit c"
  by (induction n rule: decimal.induct) (subst decimal.simps, simp add: digit_index)

lemma decimal_nonempty: "decimal n \<noteq> []"
  by (subst decimal.simps) simp

lemma digitsValue_snoc: "digitsValue (ds @ [d]) = 10 * digitsValue ds + digitValue d"
  by (simp add: digitsValue_def)

lemma digitsValue_decimal: "digitsValue (decimal n) = int n"
proof (induction n rule: decimal.induct)
  case (1 n)
  show ?case
  proof (cases "n < 10")
    case True
    then show ?thesis
      by (subst decimal.simps) (simp add: digitsValue_def digit_index)
  next
    case False
    then have "digitsValue (decimal n)
        = 10 * digitsValue (decimal (n div 10)) + digitValue (''0123456789'' ! (n mod 10))"
      by (subst decimal.simps) (simp add: digitsValue_snoc)
    also have "\<dots> = 10 * int (n div 10) + int (n mod 10)"
      using 1 False by (simp add: digit_index)
    also have "\<dots> = int n" by presburger
    finally show ?thesis .
  qed
qed

lemma decimal_leading_zero: "hd (decimal n) = CHR ''0'' \<Longrightarrow> tl (decimal n) = []"
proof (induction n rule: decimal.induct)
  case (1 n)
  show ?case
  proof (cases "n < 10")
    case True
    then show ?thesis by (subst decimal.simps) simp
  next
    case False
    have d: "decimal n = decimal (n div 10) @ [''0123456789'' ! (n mod 10)]"
      using False by (subst decimal.simps) simp
    have "hd (decimal (n div 10)) = CHR ''0''"
      using "1.prems" d decimal_nonempty [of "n div 10"] by (simp add: hd_append)
    with 1 False have t: "tl (decimal (n div 10)) = []" by simp
    have "hd (decimal (n div 10)) \<noteq> CHR ''0''"
    proof (cases "n div 10 < 10")
      case True
      then have "decimal (n div 10) = [''0123456789'' ! (n div 10)]"
        by (subst decimal.simps) (simp only: if_True)
      moreover have "n div 10 \<noteq> 0" using False by simp
      ultimately show ?thesis
        using zero_index [OF True] by (metis list.sel(1))
    next
      case False
      then have "decimal (n div 10) = decimal (n div 10 div 10) @ [''0123456789'' ! (n div 10 mod 10)]"
        by (subst decimal.simps) simp
      with t decimal_nonempty [of "n div 10 div 10"] show ?thesis
        by (cases "decimal (n div 10 div 10)") simp_all
    qed
    with \<open>hd (decimal (n div 10)) = CHR ''0''\<close> show ?thesis by simp
  qed
qed

lemma takeWhile_digits:
  assumes "\<forall>c \<in> set ds. isDigit c" and "case rest of [] \<Rightarrow> True | c # _ \<Rightarrow> \<not> isDigit c"
  shows "takeWhile isDigit (ds @ rest) = ds \<and> dropWhile isDigit (ds @ rest) = rest"
  using assms by (induction ds) (auto split: list.splits)

lemma delimited_not_digit:
  "delimited rest \<Longrightarrow> (case rest of [] \<Rightarrow> True | c # _ \<Rightarrow> \<not> isDigit c)"
  by (auto simp: delimited_def isDigit_def split: list.splits)

lemma delimited_not_fraction:
  "delimited rest \<Longrightarrow> \<not> (case rest of c # _ \<Rightarrow> c \<in> set ''.eE'' | [] \<Rightarrow> False)"
  by (auto simp: delimited_def split: list.splits)

lemma decimal_head: "\<exists>c cs. decimal n = c # cs \<and> isDigit c"
  using decimal_nonempty [of n] decimal_digits [of n] by (cases "decimal n") auto

lemma parse_number_print:
  assumes "delimited rest"
  shows "parse_number (print_number i @ rest) = Some (i, rest)"
proof -
  have split: "\<And>n. takeWhile isDigit (decimal n @ rest) = decimal n \<and>
                   dropWhile isDigit (decimal n @ rest) = rest"
    using takeWhile_digits [OF decimal_digits delimited_not_digit [OF assms]] by blast
  have nofrac: "\<not> (case rest of c # _ \<Rightarrow> c \<in> set ''.eE'' | [] \<Rightarrow> False)"
    by (rule delimited_not_fraction [OF assms])
  have lead: "\<And>n. \<not> (hd (decimal n) = CHR ''0'' \<and> tl (decimal n) \<noteq> [])"
    using decimal_leading_zero by blast
  show ?thesis
  proof (cases "i < 0")
    case True
    then show ?thesis
      using split [of "nat (- i)"] nofrac lead [of "nat (- i)"] decimal_nonempty [of "nat (- i)"]
      by (simp add: parse_number_def print_number_def Let_def digitsValue_decimal)
  next
    case False
    obtain c cs where d: "decimal (nat i) = c # cs" and "isDigit c"
      using decimal_head by blast
    then have "c \<noteq> CHR ''-''" by (auto simp: isDigit_def)
    with False d show ?thesis
      using split [of "nat i"] nofrac lead [of "nat i"] digitsValue_decimal [of "nat i"]
      by (simp add: parse_number_def print_number_def Let_def)
  qed
qed

lemma skip_ws_head: "\<not> isJSONWhiteSpace c \<Longrightarrow> skip_ws (c # cs) = c # cs"
  by (simp add: skip_ws_def)

lemma print_number_head:
  "\<exists>c cs. print_number i = c # cs \<and> (c = CHR ''-'' \<or> isDigit c)"
  using decimal_head [of "nat i"] decimal_head [of "nat (- i)"]
  by (auto simp: print_number_def)

lemma value_start_number: "c = CHR ''-'' \<or> isDigit c \<Longrightarrow> value_start c"
  by (auto simp: value_start_def isDigit_def)

lemma print_json_head: "\<exists>c cs. print_json v = c # cs \<and> value_start c"
proof (cases v)
  case (JNumber i)
  obtain c cs where "print_number i = c # cs" and "c = CHR ''-'' \<or> isDigit c"
    using print_number_head by blast
  then show ?thesis
    using JNumber value_start_number by simp
next
  case (JString s)
  then show ?thesis by (simp add: value_start_def QuoteJSONString_def)
qed (simp_all add: value_start_def)

lemma value_start_facts:
  "value_start c \<Longrightarrow> \<not> isJSONWhiteSpace c \<and> c \<noteq> CHR '']'' \<and> c \<noteq> CHR ''}''"
  by (auto simp: value_start_def isJSONWhiteSpace_def)

lemma upsert_fresh: "k \<notin> fst ` set al \<Longrightarrow> upsert k v al = al @ [(k, v)]"
  by (induction al) auto

lemma foldl_upsert_distinct:
  "distinct (map fst (al @ kvs)) \<Longrightarrow>
     foldl (\<lambda>al kv. upsert (fst kv) (snd kv) al) al kvs = al @ kvs"
proof (induction kvs arbitrary: al)
  case Nil
  then show ?case by simp
next
  case (Cons kv kvs)
  have "fst kv \<notin> fst ` set al" using Cons.prems by auto
  then have "upsert (fst kv) (snd kv) al = al @ [kv]" by (simp add: upsert_fresh)
  moreover have "distinct (map fst ((al @ [kv]) @ kvs))" using Cons.prems by simp
  ultimately show ?case using Cons.IH [of "al @ [kv]"] by simp
qed

lemma make_object_distinct: "distinct (map fst kvs) \<Longrightarrow> make_object kvs = JObject kvs"
  using foldl_upsert_distinct [of "[]" kvs] by (simp add: make_object_def)

lemma parse_value_atoms:
  "parse_value (Suc n) (''null'' @ rest) = Some (JNull, rest)"
  "parse_value (Suc n) (''true'' @ rest) = Some (JBool True, rest)"
  "parse_value (Suc n) (''false'' @ rest) = Some (JBool False, rest)"
  by (simp_all add: parse_value.simps skip_ws_def isJSONWhiteSpace_def parse_literal_def)

lemma parse_value_string:
  "parse_value (Suc n) (QuoteJSONString s @ rest) = Some (JString s, rest)"
  using parse_chars_quoted [of s rest]
  by (simp add: parse_value.simps QuoteJSONString_def skip_ws_def isJSONWhiteSpace_def)

lemma parse_value_number:
  assumes "delimited rest"
  shows "parse_value (Suc n) (print_number i @ rest) = Some (JNumber i, rest)"
proof -
  obtain c cs where p: "print_number i = c # cs" and c: "c = CHR ''-'' \<or> isDigit c"
    using print_number_head by blast
  have "parse_number ((c # cs) @ rest) = Some (i, rest)"
    using parse_number_print [OF assms, of i] p by simp
  moreover have "\<not> isJSONWhiteSpace c" and "c \<noteq> CHR ''n''" and "c \<noteq> CHR ''t''" and "c \<noteq> CHR ''f''"
    and "c \<noteq> CHR 0x22" and "c \<noteq> CHR ''[''" and "c \<noteq> CHR ''{''"
    using c by (auto simp: isDigit_def isJSONWhiteSpace_def)
  ultimately show ?thesis
    by (simp add: parse_value.simps p skip_ws_head)
qed


lemma delimited_simps [simp]:
  "delimited (CHR '','' # r)" "delimited (CHR '']'' # r)" "delimited (CHR ''}'' # r)"
  by (simp_all add: delimited_def)

lemma skip_ws_delims [simp]:
  "skip_ws (CHR '','' # r) = CHR '','' # r"
  "skip_ws (CHR '']'' # r) = CHR '']'' # r"
  "skip_ws (CHR ''}'' # r) = CHR ''}'' # r"
  "skip_ws (CHR '':'' # r) = CHR '':'' # r"
  "skip_ws (CHR 0x22 # r) = CHR 0x22 # r"
  by (simp_all add: skip_ws_def isJSONWhiteSpace_def)

lemma parse_value_empty_array:
  "parse_value (Suc n) (CHR ''['' # CHR '']'' # rest) = Some (JArray [], rest)"
  by (simp add: parse_value.simps skip_ws_def isJSONWhiteSpace_def)

lemma parse_value_empty_object:
  "parse_value (Suc n) (CHR ''{'' # CHR ''}'' # rest) = Some (JObject [], rest)"
  by (simp add: parse_value.simps skip_ws_def isJSONWhiteSpace_def)

lemma parse_value_array:
  assumes "value_start c"
  shows "parse_value (Suc n) (CHR ''['' # c # cs) =
     (case parse_elements n (c # cs) of
        None \<Rightarrow> None
      | Some (vs, r') \<Rightarrow> Some (JArray vs, r'))"
  using value_start_facts [OF assms]
  by (simp add: parse_value.simps skip_ws_head skip_ws_def isJSONWhiteSpace_def)

lemma parse_value_object:
  "parse_value (Suc n) (CHR ''{'' # CHR 0x22 # cs) =
     (case parse_members n (CHR 0x22 # cs) of
        None \<Rightarrow> None
      | Some (kvs, r') \<Rightarrow> Some (make_object kvs, r'))"
  by (simp add: parse_value.simps skip_ws_def isJSONWhiteSpace_def)

lemma parse_elements_more:
  "parse_value n s = Some (v, CHR '','' # r) \<Longrightarrow>
     parse_elements (Suc n) s =
       (case parse_elements n r of None \<Rightarrow> None | Some (vs, r'') \<Rightarrow> Some (v # vs, r''))"
  by (simp add: parse_elements.simps)

lemma parse_elements_last:
  "parse_value n s = Some (v, CHR '']'' # r) \<Longrightarrow> parse_elements (Suc n) s = Some ([v], r)"
  by (simp add: parse_elements.simps)

lemma parse_members_more:
  "parse_value n r1 = Some (v, CHR '','' # r3) \<Longrightarrow>
     parse_members (Suc n) (QuoteJSONString k @ CHR '':'' # r1) =
       (case parse_members n r3 of
          None \<Rightarrow> None
        | Some (kvs, r4) \<Rightarrow> Some ((k, v) # kvs, r4))"
  using parse_chars_quoted [of k "CHR '':'' # r1"]
  by (simp add: parse_members.simps QuoteJSONString_def)

lemma parse_members_last:
  "parse_value n r1 = Some (v, CHR ''}'' # r3) \<Longrightarrow>
     parse_members (Suc n) (QuoteJSONString k @ CHR '':'' # r1) = Some ([(k, v)], r3)"
  using parse_chars_quoted [of k "CHR '':'' # r1"]
  by (simp add: parse_members.simps QuoteJSONString_def)

lemma wf_members_keys: "wf_json (JObject kvs) \<Longrightarrow> distinct (map fst kvs)"
  by simp

lemma parse_print:
  "wf_json v \<Longrightarrow> length (print_json v) \<le> n \<Longrightarrow> delimited rest \<Longrightarrow>
     parse_value n (print_json v @ rest) = Some (v, rest)"
  "vs \<noteq> [] \<Longrightarrow> wf_elements vs \<Longrightarrow> length (print_elements vs) \<le> n \<Longrightarrow>
     parse_elements n (print_elements vs @ rest) = Some (vs, rest)"
  "kvs \<noteq> [] \<Longrightarrow> wf_members kvs \<Longrightarrow> length (print_members kvs) \<le> n \<Longrightarrow>
     parse_members n (print_members kvs @ rest) = Some (kvs, rest)"
proof (induction v and vs and kvs arbitrary: n rest and n rest and n rest
    rule: print_json_print_elements_print_members.induct)
  case 1
  then obtain m where "n = Suc m" by (cases n) auto
  then show ?case using parse_value_atoms(1) [of m rest] by simp
next
  case (2 b)
  then obtain m where "n = Suc m" by (cases n) (auto split: if_splits)
  then show ?case using parse_value_atoms(2,3) [of m rest] by simp
next
  case (3 i)
  then obtain m where "n = Suc m"
    using print_number_head [of i] by (cases n) auto
  then show ?case using 3 by (simp add: parse_value_number)
next
  case (4 s)
  then obtain m where "n = Suc m" by (cases n) (auto simp: QuoteJSONString_def)
  then show ?case by (simp add: parse_value_string)
next
  case (5 vs)
  then obtain m where n: "n = Suc m" and len: "length (print_elements vs) \<le> m"
    by (cases n) auto
  show ?case
  proof (cases vs)
    case Nil
    then show ?thesis by (simp add: n parse_value_empty_array)
  next
    case (Cons w ws)
    obtain c cs where h: "print_json w = c # cs" and c: "value_start c"
      using print_json_head by blast
    have "parse_elements m (print_elements vs @ rest) = Some (vs, rest)"
      using 5 len Cons by simp
    moreover obtain cs' where "print_elements vs @ rest = c # cs'"
      using Cons h by simp
    ultimately show ?thesis
      using parse_value_array [OF c, of m cs'] by (simp add: n)
  qed
next
  case (6 kvs)
  then obtain m where n: "n = Suc m" and len: "length (print_members kvs) \<le> m"
    by (cases n) auto
  show ?case
  proof (cases kvs)
    case Nil
    then show ?thesis by (simp add: n parse_value_empty_object)
  next
    case (Cons kv kvs')
    have "parse_members m (print_members kvs @ rest) = Some (kvs, rest)"
      using 6 len Cons by simp
    moreover obtain cs where "print_members kvs @ rest = CHR 0x22 # cs"
      using Cons by (simp add: QuoteJSONString_def)
    ultimately show ?thesis
      using parse_value_object [of m cs] wf_members_keys [OF "6.prems"(1)]
      by (simp add: n make_object_distinct)
  qed
next
  case 7
  then show ?case by simp
next
  case (8 v vs)
  then obtain m where n: "n = Suc m" by (cases n) (auto split: if_splits)
  have lv: "length (print_json v) \<le> m" using 8 n by (simp split: if_splits)
  have wv: "wf_json v" using 8 by simp
  show ?case
  proof (cases "vs = []")
    case True
    have "parse_value m (print_json v @ CHR '']'' # rest) = Some (v, CHR '']'' # rest)"
      using "8.IH"(1) [OF wv lv] by simp
    then show ?thesis using True n by (simp add: parse_elements_last)
  next
    case False
    have "parse_value m (print_json v @ CHR '','' # print_elements vs @ rest)
        = Some (v, CHR '','' # print_elements vs @ rest)"
      using "8.IH"(1) [OF wv lv] by simp
    moreover have "parse_elements m (print_elements vs @ rest) = Some (vs, rest)"
      using "8.IH"(2) [OF False False] 8 n False by simp
    ultimately show ?thesis using False n by (simp add: parse_elements_more)
  qed
next
  case 9
  then show ?case by simp
next
  case (10 kv kvs)
  then obtain m where n: "n = Suc m" by (cases n) (auto split: if_splits)
  have lv: "length (print_json (snd kv)) \<le> m" using 10 n by (simp split: if_splits)
  have wv: "wf_json (snd kv)" using 10 by simp
  show ?case
  proof (cases "kvs = []")
    case True
    have "parse_value m (print_json (snd kv) @ CHR ''}'' # rest)
        = Some (snd kv, CHR ''}'' # rest)"
      using "10.IH"(1) [OF wv lv] by simp
    then show ?thesis using True n by (simp add: parse_members_last)
  next
    case False
    have "parse_value m (print_json (snd kv) @ CHR '','' # print_members kvs @ rest)
        = Some (snd kv, CHR '','' # print_members kvs @ rest)"
      using "10.IH"(1) [OF wv lv] by simp
    moreover have "parse_members m (print_members kvs @ rest) = Some (kvs, rest)"
      using "10.IH"(2) [OF False False] 10 n False by simp
    ultimately show ?thesis using False n by (simp add: parse_members_more)
  qed
qed

lemma parse_json_print: "wf_json v \<Longrightarrow> parse_json (print_json v) = Some v"
  using parse_print(1) [of v "length (print_json v)" "[]"]
  by (simp add: parse_json_def delimited_def skip_ws_def)

lemma member_keys: "map fst (member k v) = (case v of None \<Rightarrow> [] | Some _ \<Rightarrow> [k])"
  by (cases v) simp_all

lemma wf_members_member: "wf_members (member k v) = wf_field v"
  by (cases v) simp_all

lemma wf_members_append: "wf_members (xs @ ys) = (wf_members xs \<and> wf_members ys)"
  by (induction xs) simp_all

lemma is_id_wf: "is_id v \<Longrightarrow> wf_json v"
  by (cases v) simp_all

lemma message_json_wf: "valid_message m \<Longrightarrow> wf_json (message_json m)"
  by (cases "msg_id m"; cases "msg_method m"; cases "msg_params m"; cases "msg_result m";
      cases "msg_error m")
    (simp_all add: valid_message_def message_json_def wf_members_append is_id_wf)

lemma validate_message_json: "valid_message m \<Longrightarrow> validate (message_json m) = Inr m"
  by (cases "msg_id m"; cases "msg_method m"; cases "msg_params m"; cases "msg_result m";
      cases "msg_error m")
    (simp_all add: valid_message_def message_json_def is_request_def is_notification_def
      is_response_def Let_def)


subsection \<open>Values of the codec on the concrete runs\<close>

lemma encodeURI_test_url:
  "ECMA_encodeURI ''http://localhost/message'' = ''http://localhost/message''"
  by (simp add: ECMA_encodeURI_def encodeURI_char_def uriUnescaped_def)

lemma encode_ping: \<open>encode ping = ''{"jsonrpc":"2.0","method":"ping"}''\<close>
  by (simp add: encode_def ping_def message_json_def QuoteJSONString_def quoteChar_def)

lemma parse_value_letter: "parse_value n (CHR ''a'' # cs) = None"
  by (cases n)
    (simp_all add: parse_value.simps skip_ws_def isJSONWhiteSpace_def parse_number_def isDigit_def)

lemma Request_json_letters:
  "0 < n \<Longrightarrow> Request_json (replicate n (CHR ''a'')) = Inl JSONSyntaxError"
  by (cases n) (simp_all add: Request_json_def parse_json_def parse_value_letter)

lemma Request_json_not_json: "Request_json ''not json'' = Inl JSONSyntaxError"
  by (simp add: Request_json_def parse_json_def parse_value.simps skip_ws_def
      isJSONWhiteSpace_def parse_literal_def)

lemma Request_json_empty_object: "Request_json ''{}'' = Inr (JObject [])"
  by (simp add: Request_json_def parse_json_def parse_value.simps skip_ws_def
      isJSONWhiteSpace_def)

lemma validate_empty_object: "validate (JObject []) = Inl ValidationError"
  by simp

lemma Request_json_encode:
  "valid_message m \<Longrightarrow> Request_json (encode m) = Inr (message_json m)"
  by (simp add: Request_json_def encode_def parse_json_print message_json_wf)

lemma valid_ping: "valid_message ping"
  by (simp add: valid_message_def ping_def is_notification_def)

lemma valid_long_ping: "valid_message long_ping"
  by (simp add: valid_message_def long_ping_def is_notification_def)

lemma length_quoted: "length s \<le> length (concat (map quoteChar s))"
proof (induction s)
  case Nil
  show ?case by simp
next
  case (Cons c s)
  have "1 \<le> length (quoteChar c)" by (simp add: quoteChar_def)
  with Cons show ?case by simp
qed

lemma length_member_value:
  "kv \<in> set kvs \<Longrightarrow> length (print_json (snd kv)) \<le> length (print_members kvs)"
  by (induction kvs) auto

lemma length_encode_method:
  assumes "msg_method m = Some s"
  shows "length s \<le> length (encode m)"
proof -
  have "(''method'', JString s) \<in> set
      ((''jsonrpc'', JString ''2.0'') # member ''id'' (msg_id m)
       @ member ''method'' (map_option JString (msg_method m))
       @ member ''params'' (msg_params m) @ member ''result'' (msg_result m)
       @ member ''error'' (msg_error m))"
    using assms by simp
  then have "length (print_json (JString s)) \<le> length (encode m)"
    using length_member_value [of "(''method'', JString s)"]
    by (fastforce simp: encode_def message_json_def)
  moreover have "length s \<le> length (print_json (JString s))"
    using length_quoted [of s] by (simp add: QuoteJSONString_def)
  ultimately show ?thesis by simp
qed

lemma process_body_status:
  "status (response (process_body P t b)) = 202 \<or> status (response (process_body P t b)) = 400"
  by (simp add: process_body_def post_catch_def handleMessage_def Let_def
      split: sum.splits prod.splits option.splits)

lemma process_body_bodyUsed: "bodyUsed (process_body P t b)"
  by (simp add: process_body_def post_catch_def handleMessage_def Let_def
      split: sum.splits prod.splits option.splits)

lemmas test_defs = test_transport_def reached_def run_def constructor_def start_def
  controller_enqueue_def CanCloseOrEnqueue_def new_ReadableStream_def connectionInfo_def
  codec_platform_def encodeURI_test_url

subsection \<open>The invariants hold on every reachable transport\<close>

lemmas stream_defs = controller_enqueue_def controller_close_def CanCloseOrEnqueue_def
  eventStream_cancel_def ReadableStreamCancel_def source_cancel_def
lemmas invoke_defs = invoke_onclose_def invoke_onerror_def invoke_onmessage_def

lemma post_transport_after:
  "\<exists>cs. transport_after (handlePostMessage P t req) = t\<lparr>calls := calls t @ cs\<rparr>"
proof -
  have same: "\<exists>cs. t = t\<lparr>calls := calls t @ cs\<rparr>"
    by (rule exI [of _ "[]"]) simp
  show ?thesis
    using same
    by (auto simp: handlePostMessage_def process_body_def post_catch_def handleMessage_def
        invoke_defs Let_def split: sum.splits prod.splits option.splits)
qed

lemma inv_step:
  assumes "transport_inv t"
  shows "transport_inv (step P t a)"
proof (cases a)
  case (Post req)
  obtain cs where "transport_after (handlePostMessage P t req) = t\<lparr>calls := calls t @ cs\<rparr>"
    using post_transport_after by blast
  with assms Post show ?thesis by (simp add: transport_inv_def)
qed (use assms in \<open>auto simp: transport_inv_def start_def send_def close_def stream_defs
      invoke_defs peer_read_def Let_def
      split: sum.splits if_splits stream_state.splits list.splits\<close>)

lemma inv_run: "transport_inv t \<Longrightarrow> transport_inv (run P t acts)"
  unfolding run_def by (induction acts arbitrary: t) (simp_all add: inv_step)

lemma inv_reached: "transport_inv (reached P url sid acts)"
  unfolding reached_def by (rule inv_run) (simp add: transport_inv_def constructor_def)

lemma run_starts_active:
  "isActive t \<Longrightarrow> set acts \<subseteq> {Start} \<Longrightarrow> run P t acts = t"
  unfolding run_def by (induction acts) (auto simp: start_def)

lemma connectionInfo_endpoint: "isEndpointEvent (connectionInfo P t)"
  by (simp add: isEndpointEvent_def connectionInfo_def)

lemma formattedMessage_not_endpoint: "\<not> isEndpointEvent (formattedMessage P m)"
  by (simp add: isEndpointEvent_def formattedMessage_def)

lemma endpoint_inv_step:
  assumes "endpoint_inv t"
  shows "endpoint_inv (step P t a)"
proof (cases a)
  case (Post req)
  obtain cs where "transport_after (handlePostMessage P t req) = t\<lparr>calls := calls t @ cs\<rparr>"
    using post_transport_after by blast
  with assms Post show ?thesis by (simp add: endpoint_inv_def endpoint_events_def)
qed (use assms in \<open>auto simp: endpoint_inv_def endpoint_events_def start_def send_def close_def
      stream_defs invoke_defs peer_read_def Let_def
      connectionInfo_endpoint formattedMessage_not_endpoint
      split: sum.splits if_splits stream_state.splits list.splits\<close>)

lemma endpoint_inv_run: "endpoint_inv t \<Longrightarrow> endpoint_inv (run P t acts)"
  unfolding run_def by (induction acts arbitrary: t) (simp_all add: endpoint_inv_step)

lemma endpoint_inv_reached: "endpoint_inv (reached P url sid acts)"
  unfolding reached_def
  by (rule endpoint_inv_run)
    (simp add: endpoint_inv_def endpoint_events_def constructor_def new_ReadableStream_def)

subsection \<open>Closing\<close>

text \<open>
  Claim C1: across every interleaving of \<open>close()\<close> calls and cancellation by the peer,
  \<open>onclose\<close> is invoked at most once. The code does not keep this. \<open>close()\<close> on an active
  transport whose stream still holds an unread chunk (here the endpoint event) cancels the
  stream, which runs the \<open>cancel\<close> callback and with it \<open>onclose\<close>, and then calls \<open>onclose\<close>
  itself. When the stream is locked by the reader, \<open>close()\<close> calls \<open>onclose\<close> once and the
  later cancellation by the peer calls it again.
\<close>

theorem close_calls_onclose_twice:
  "onclose_count (test_transport [SetOnClose True, Start, Close]) = 2 \<and>
   onclose_count (test_transport [SetOnClose True, Start, PeerLock, Close, PeerCancel]) = 2"
  by (simp add: onclose_count_def test_transport_def reached_def run_def constructor_def
      start_def close_def stream_defs invoke_onclose_def new_ReadableStream_def
      connectionInfo_def codec_platform_def encodeURI_test_url)

subsection \<open>Starting\<close>

text \<open>
  Claim C2: a second \<open>start()\<close> after a successful one fails with AlreadyActiveError;
  \<open>start()\<close> on a transport whose controller was never initialised (and which therefore was
  never started) fails with StreamUnavailableError; and after any non-empty sequence of
  \<open>start()\<close> calls on a new transport the stream has received exactly one chunk, the endpoint
  event \<open>event: endpoint\<newline>data: <postUrl>?sessionId=<id>\<newline>\<newline>\<close>, where the URL is the
  endpoint URL as \<open>encodeURI\<close> returns it. Beyond the claim, over every interleaving of all
  calls the stream receives at most one endpoint event.
\<close>

theorem start_twice_one_endpoint:
  "(start P t = Inr t' \<longrightarrow> start P t' = Inl AlreadyActiveError) \<and>
   (\<not> isActive t \<and> \<not> streamController t \<longrightarrow> start P t = Inl StreamUnavailableError) \<and>
   (acts \<noteq> [] \<and> set acts \<subseteq> {Start} \<longrightarrow>
      written (eventStream (reached P url sid acts)) =
        [''event: endpoint\<newline>data: '' @ encodeURI P url @ ''?sessionId='' @ sid
           @ ''\<newline>\<newline>'']) \<and>
   length (endpoint_events (reached P url sid all_acts)) \<le> 1"
proof (intro conjI impI)
  assume "start P t = Inr t'"
  then have "isActive t'"
    by (auto simp: start_def split: if_splits sum.splits)
  then show "start P t' = Inl AlreadyActiveError"
    by (simp add: start_def)
next
  assume "\<not> isActive t \<and> \<not> streamController t"
  then show "start P t = Inl StreamUnavailableError"
    by (simp add: start_def)
next
  assume a: "acts \<noteq> [] \<and> set acts \<subseteq> {Start}"
  then obtain rest where acts: "acts = Start # rest" and rest: "set rest \<subseteq> {Start}"
    by (cases acts) auto
  let ?t1 = "step P (constructor url sid) Start"
  have first: "isActive ?t1 \<and> written (eventStream ?t1) =
      [''event: endpoint\<newline>data: '' @ encodeURI P url @ ''?sessionId='' @ sid
         @ ''\<newline>\<newline>'']"
    by (simp add: constructor_def start_def controller_enqueue_def CanCloseOrEnqueue_def
        new_ReadableStream_def connectionInfo_def)
  have "reached P url sid acts = run P ?t1 rest"
    by (simp add: reached_def run_def acts)
  also have "\<dots> = ?t1"
    using first rest by (simp add: run_starts_active)
  finally show "written (eventStream (reached P url sid acts)) =
      [''event: endpoint\<newline>data: '' @ encodeURI P url @ ''?sessionId='' @ sid
         @ ''\<newline>\<newline>'']"
    using first by simp
next
  show "length (endpoint_events (reached P url sid all_acts)) \<le> 1"
    using endpoint_inv_reached [of P url sid all_acts] by (simp add: endpoint_inv_def)
qed

text \<open>The three cases on the test transport.\<close>

theorem start_twice_one_endpoint_witness:
  "start codec_platform (test_transport []) = Inr (test_transport [Start]) \<and>
   start codec_platform (test_transport [Start]) = Inl AlreadyActiveError \<and>
   start codec_platform ((test_transport [])\<lparr>streamController := False\<rparr>)
     = Inl StreamUnavailableError \<and>
   written (eventStream (test_transport [Start, Start, Start])) =
     [''event: endpoint\<newline>data: http://localhost/message?sessionId=s1\<newline>\<newline>'']"
proof -
  have s: "start codec_platform (test_transport []) = Inr (test_transport [Start])"
    by (simp add: test_transport_def reached_def run_def start_def constructor_def
        controller_enqueue_def CanCloseOrEnqueue_def new_ReadableStream_def)
  have u: "\<not> isActive ((test_transport [])\<lparr>streamController := False\<rparr>) \<and>
           \<not> streamController ((test_transport [])\<lparr>streamController := False\<rparr>)"
    by (simp add: test_transport_def reached_def run_def constructor_def)
  have a: "[Start, Start, Start] \<noteq> [] \<and> set [Start, Start, Start :: string action] \<subseteq> {Start}"
    by simp
  show ?thesis
    using s u a start_twice_one_endpoint [of codec_platform "test_transport []"
        "test_transport [Start]" "[Start, Start, Start]" "''http://localhost/message''" "''s1''"]
      start_twice_one_endpoint [of codec_platform
        "(test_transport [])\<lparr>streamController := False\<rparr>"]
    by (simp add: test_transport_def codec_platform_def encodeURI_test_url)
qed

subsection \<open>Sending\<close>

lemma close_returns_inactive:
  assumes "transport_inv t"
  shows "\<exists>t'. close t = Inr t' \<and> \<not> isActive t'"
proof (cases "isActive t")
  case True
  with assms have "streamController t" and "CanCloseOrEnqueue (eventStream t)"
    by (simp_all add: transport_inv_def)
  with True show ?thesis
    by (simp add: close_def controller_close_def invoke_onclose_def)
next
  case False
  then show ?thesis by (simp add: close_def)
qed

text \<open>
  Claim C3: \<open>send(m)\<close> on a transport that is not active fails with NotConnectedError and
  enqueues nothing (the call throws before it touches the stream). That is the case before
  \<open>start()\<close>, after \<open>close()\<close> (which, on a reachable transport, returns and leaves the
  transport inactive) and after a cancellation by the peer. On every reachable transport that
  is active, \<open>send(m)\<close> returns, and its only effect is one more chunk on the stream, the
  frame \<open>event: message\<newline>data: <json>\<newline>\<newline>\<close> with the JSON text of \<open>m\<close>.
\<close>

theorem send_not_connected_or_one_frame:
  "(\<not> isActive t \<or> \<not> streamController t \<longrightarrow> send P t m = Inl NotConnectedError) \<and>
   (\<exists>t'. close (reached P url sid acts) = Inr t' \<and> send P t' m = Inl NotConnectedError) \<and>
   send P (ReadableStreamCancel (reached P url sid acts)) m = Inl NotConnectedError \<and>
   (isActive (reached P url sid acts) \<longrightarrow>
      send P (reached P url sid acts) m =
        Inr ((reached P url sid acts)\<lparr>eventStream :=
          (eventStream (reached P url sid acts))
            \<lparr>queue := queue (eventStream (reached P url sid acts))
                 @ [''event: message\<newline>data: '' @ JSON_stringify P m @ ''\<newline>\<newline>''],
             written := written (eventStream (reached P url sid acts))
                 @ [''event: message\<newline>data: '' @ JSON_stringify P m @ ''\<newline>\<newline>'']\<rparr>\<rparr>))"
proof (intro conjI impI)
  assume "\<not> isActive t \<or> \<not> streamController t"
  then show "send P t m = Inl NotConnectedError"
    by (auto simp: send_def)
next
  let ?r = "reached P url sid acts"
  have "transport_inv ?r" by (rule inv_reached)
  then obtain t' where c: "close ?r = Inr t'" and "\<not> isActive t'"
    using close_returns_inactive by blast
  then have "send P t' m = Inl NotConnectedError"
    by (simp add: send_def)
  with c show "\<exists>t'. close ?r = Inr t' \<and> send P t' m = Inl NotConnectedError"
    by blast
next
  let ?r = "reached P url sid acts"
  have "transport_inv ?r" by (rule inv_reached)
  then have "\<not> isActive (ReadableStreamCancel ?r)"
    by (auto simp: transport_inv_def stream_defs invoke_onclose_def split: stream_state.splits)
  then show "send P (ReadableStreamCancel ?r) m = Inl NotConnectedError"
    by (simp add: send_def)
next
  let ?r = "reached P url sid acts"
  assume "isActive ?r"
  moreover have "transport_inv ?r" by (rule inv_reached)
  ultimately have "streamController ?r" and "CanCloseOrEnqueue (eventStream ?r)"
    by (simp_all add: transport_inv_def)
  with \<open>isActive ?r\<close> show "send P ?r m =
        Inr (?r\<lparr>eventStream :=
          (eventStream ?r)
            \<lparr>queue := queue (eventStream ?r)
                 @ [''event: message\<newline>data: '' @ JSON_stringify P m @ ''\<newline>\<newline>''],
             written := written (eventStream ?r)
                 @ [''event: message\<newline>data: '' @ JSON_stringify P m @ ''\<newline>\<newline>'']\<rparr>\<rparr>)"
    by (simp add: send_def controller_enqueue_def formattedMessage_def)
qed

text \<open>Sending a ping before the start, after a close, after a cancellation, and while active.\<close>

theorem send_not_connected_or_one_frame_witness:
  \<open>send codec_platform (test_transport []) ping = Inl NotConnectedError \<and>
   send codec_platform (test_transport [Start, Close]) ping = Inl NotConnectedError \<and>
   send codec_platform (test_transport [Start, PeerCancel]) ping = Inl NotConnectedError \<and>
   isActive (test_transport [Start]) \<and>
   written (eventStream (test_transport [Start, Send ping])) =
     [''event: endpoint\<newline>data: http://localhost/message?sessionId=s1\<newline>\<newline>'',
      ''event: message\<newline>data: {"jsonrpc":"2.0","method":"ping"}\<newline>\<newline>'']\<close>
  using send_not_connected_or_one_frame [of "test_transport []" codec_platform ping
      "''http://localhost/message''" "''s1''" "[Start]"]
  by (simp add: test_defs send_def close_def stream_defs invoke_onclose_def
      formattedMessage_def encode_ping)

subsection \<open>Inbound POST requests\<close>

lemma post_accepted:
  assumes "isActive t" and "streamController t"
    and "String_includes (or_default (headers req ''content-type'') []) ''application/json''"
    and "\<not> exceeds (parseInt (or_default (headers req ''content-length'') ''0'')) MAX_MSG_SIZE"
  shows "handlePostMessage P t req = process_body P t (body req)"
  using assms by (simp add: handlePostMessage_def Let_def)

lemma toError_idem: "toError (toError e) = toError e"
  by (cases e) simp_all

lemma errorMessage_toError: "errorMessage (toError e) = errorMessage e"
  by (cases e) simp_all

lemma handleMessage_invalid:
  assumes "JSONRPCMessageSchema_parse P raw = Inl e" and "onerror t"
  shows "handleMessage P t raw = (t\<lparr>calls := calls t @ [OnError (toError e)]\<rparr>, Some (toError e))"
  using assms by (simp add: handleMessage_def invoke_onerror_def Let_def)

lemma parseInt_empty: "parseInt [] = None"
  by (simp add: parseInt_def)

lemma parseInt_zero: "parseInt ''0'' = Some 0"
  by (simp add: parseInt_def isWhiteSpace_def isDigit_def digitsValue_def digitValue_def)

lemma onclose_count_OnError:
  "count_list (cs @ replicate k (OnError e)) OnClose = count_list cs OnClose"
  by (induction k) (simp_all add: replicate_append_same [symmetric] del: replicate_Suc)

text \<open>
  Claim C4: a POST handled while active whose body is parsed (JSON content type, declared length
  within the limit) and fails, in \<open>request.json()\<close> or in the schema validation, invokes the
  \<open>onerror\<close> handler (once for a parse failure, twice for a validation failure), returns status
  400 with the failure message, and changes nothing else: the transport stays active, its
  stream is untouched and \<open>onclose\<close> is not invoked.
\<close>

theorem post_decode_failure_keeps_session:
  assumes "isActive t" and "streamController t"
    and "String_includes (or_default (headers req ''content-type'') []) ''application/json''"
    and "\<not> exceeds (parseInt (or_default (headers req ''content-length'') ''0'')) MAX_MSG_SIZE"
    and "JSON_parse P (body req) = Inl e \<or>
         (\<exists>raw. JSON_parse P (body req) = Inr raw \<and> JSONRPCMessageSchema_parse P raw = Inl e)"
    and "onerror t"
  shows "status (response (handlePostMessage P t req)) = 400 \<and>
         bodyText (response (handlePostMessage P t req))
           = ''Error processing message: '' @ errorMessage e \<and>
         transport_after (handlePostMessage P t req)
           = t\<lparr>calls := calls t @ replicate (case JSON_parse P (body req) of Inl _ \<Rightarrow> 1 | Inr _ \<Rightarrow> 2)
                                     (OnError (toError e))\<rparr> \<and>
         isActive (transport_after (handlePostMessage P t req)) \<and>
         eventStream (transport_after (handlePostMessage P t req)) = eventStream t \<and>
         onclose_count (transport_after (handlePostMessage P t req)) = onclose_count t"
proof -
  let ?out = "handlePostMessage P t req"
  let ?k = "case JSON_parse P (body req) of Inl _ \<Rightarrow> 1 | Inr _ \<Rightarrow> (2::nat)"
  have out: "status (response ?out) = 400 \<and>
      bodyText (response ?out) = ''Error processing message: '' @ errorMessage e \<and>
      transport_after ?out = t\<lparr>calls := calls t @ replicate ?k (OnError (toError e))\<rparr>"
    using assms(5)
  proof
    assume "JSON_parse P (body req) = Inl e"
    then show ?thesis
      using assms(6) by (simp add: post_accepted [OF assms(1-4)] process_body_def post_catch_def invoke_onerror_def)
  next
    assume "\<exists>raw. JSON_parse P (body req) = Inr raw \<and> JSONRPCMessageSchema_parse P raw = Inl e"
    then obtain raw where "JSON_parse P (body req) = Inr raw"
      and "JSONRPCMessageSchema_parse P raw = Inl e" by blast
    then show ?thesis
      using assms(6)
      by (simp add: post_accepted [OF assms(1-4)] process_body_def handleMessage_invalid post_catch_def
          invoke_onerror_def toError_idem errorMessage_toError numeral_2_eq_2)
  qed
  then have after: "transport_after ?out = t\<lparr>calls := calls t @ replicate ?k (OnError (toError e))\<rparr>"
    by simp
  have "isActive (transport_after ?out)"
    using assms(1) by (simp add: after)
  moreover have "eventStream (transport_after ?out) = eventStream t"
    by (simp add: after)
  moreover have "onclose_count (transport_after ?out) = onclose_count t"
    by (simp add: after onclose_count_def onclose_count_OnError)
  ultimately show ?thesis using out by simp
qed

text \<open>A body that is not JSON, posted to an active transport with an \<open>onerror\<close> handler.\<close>

theorem post_decode_failure_keeps_session_witness:
  "isActive (test_transport [SetOnError True, Start]) \<and>
   JSON_parse codec_platform (body (json_request ''not json''))
     = Inl JSONSyntaxError \<and>
   status (response (handlePostMessage codec_platform (test_transport [SetOnError True, Start])
     (json_request ''not json''))) = 400 \<and>
   bodyText (response (handlePostMessage codec_platform (test_transport [SetOnError True, Start])
     (json_request ''not json''))) = ''Error processing message: Unexpected token in JSON'' \<and>
   calls (transport_after (handlePostMessage codec_platform
     (test_transport [SetOnError True, Start]) (json_request ''not json'')))
     = [OnError JSONSyntaxError] \<and>
   isActive (transport_after (handlePostMessage codec_platform
     (test_transport [SetOnError True, Start]) (json_request ''not json'')))"
  using post_decode_failure_keeps_session [of "test_transport [SetOnError True, Start]"
      "json_request ''not json''" codec_platform
      "JSONSyntaxError"]
  by (simp add: test_defs json_request_def Request_json_not_json parseInt_zero
      MAX_MSG_SIZE_def JSONSyntaxError_def)

text \<open>
  Claim C9: when the body is well-formed JSON and fails the schema validation, \<open>onerror\<close> is
  invoked exactly twice with the same error before the 400 response: \<open>handleMessage\<close> invokes
  it once and rethrows, and the \<open>catch\<close> block of \<open>handlePostMessage\<close> invokes it again.
\<close>

theorem post_schema_failure_onerror_twice:
  assumes "isActive t" and "streamController t"
    and "String_includes (or_default (headers req ''content-type'') []) ''application/json''"
    and "\<not> exceeds (parseInt (or_default (headers req ''content-length'') ''0'')) MAX_MSG_SIZE"
    and "JSON_parse P (body req) = Inr raw"
    and "JSONRPCMessageSchema_parse P raw = Inl e"
    and "onerror t"
  shows "handleMessage P t raw
           = (t\<lparr>calls := calls t @ [OnError (toError e)]\<rparr>, Some (toError e)) \<and>
         calls (transport_after (handlePostMessage P t req))
           = calls t @ [OnError (toError e), OnError (toError e)] \<and>
         status (response (handlePostMessage P t req)) = 400"
  using assms(5-7)
  by (simp add: post_accepted [OF assms(1-4)] process_body_def handleMessage_invalid post_catch_def
      invoke_onerror_def toError_idem)

text \<open>The empty object is JSON and no JSON-RPC message.\<close>

theorem post_schema_failure_onerror_twice_witness:
  "isActive (test_transport [SetOnError True, Start]) \<and>
   JSON_parse codec_platform (body (json_request ''{}'')) = Inr (JObject []) \<and>
   JSONRPCMessageSchema_parse codec_platform (JObject []) = Inl ValidationError \<and>
   calls (transport_after (handlePostMessage codec_platform
     (test_transport [SetOnError True, Start]) (json_request ''{}'')))
     = [OnError ValidationError, OnError ValidationError] \<and>
   status (response (handlePostMessage codec_platform (test_transport [SetOnError True, Start])
     (json_request ''{}''))) = 400"
  using post_schema_failure_onerror_twice [of "test_transport [SetOnError True, Start]"
      "json_request ''{}''" codec_platform "JObject []" "ValidationError"]
  by (simp add: test_defs json_request_def Request_json_empty_object parseInt_zero
      MAX_MSG_SIZE_def ValidationError_def)

text \<open>
  Claim C5 says that every POST whose message is longer than 4 MiB gets status 413 without
  being parsed. The handler never measures the body: a JSON request without a Content-Length
  header whose body is longer than 4 MiB is read and parsed, here into status 400.
\<close>

theorem post_body_over_limit_counterexample:
  "int (length (body unsized_request)) > MAX_MSG_SIZE \<and>
   isActive (test_transport [Start]) \<and>
   status (response (handlePostMessage codec_platform (test_transport [Start]) unsized_request))
     = 400 \<and>
   bodyUsed (handlePostMessage codec_platform (test_transport [Start]) unsized_request)"
  by (simp add: test_defs unsized_request_def MAX_MSG_SIZE_def handlePostMessage_def
      process_body_def post_catch_def parseInt_zero Request_json_letters)

text \<open>
  Claim C5, amended: a POST handled while active, whose content-type header contains
  \<open>application/json\<close> and whose Content-Length header is read by \<open>parseInt\<close> as a number
  above 4 MiB, gets status 413; the body is not read and the transport is unchanged, so
  \<open>onmessage\<close> is not invoked.
\<close>

theorem post_declared_length_over_limit:
  assumes "isActive t" and "streamController t"
    and "String_includes (or_default (headers req ''content-type'') []) ''application/json''"
    and "headers req ''content-length'' = Some v"
    and "parseInt v = Some n" and "n > MAX_MSG_SIZE"
  shows "status (response (handlePostMessage P t req)) = 413 \<and>
         \<not> bodyUsed (handlePostMessage P t req) \<and>
         transport_after (handlePostMessage P t req) = t"
proof -
  have "v \<noteq> []" using assms(5) by (auto simp: parseInt_empty)
  then have "parseInt (or_default (headers req ''content-length'') ''0'') = Some n"
    using assms(4,5) by simp
  then show ?thesis
    using assms(1-3,6) by (simp add: handlePostMessage_def Let_def)
qed

text \<open>A ping declared as 4 MiB and one byte.\<close>

theorem post_declared_length_over_limit_witness:
  "isActive (test_transport [SetOnMessage True, Start]) \<and>
   parseInt ''4194305'' = Some 4194305 \<and> 4194305 > MAX_MSG_SIZE \<and>
   status (response (handlePostMessage codec_platform (test_transport [SetOnMessage True, Start])
     \<lparr>headers = [''content-type'' \<mapsto> ''application/json'',
                 ''content-length'' \<mapsto> ''4194305''],
      body = encode ping\<rparr>)) = 413 \<and>
   calls (transport_after (handlePostMessage codec_platform
     (test_transport [SetOnMessage True, Start])
     \<lparr>headers = [''content-type'' \<mapsto> ''application/json'',
                 ''content-length'' \<mapsto> ''4194305''],
      body = encode ping\<rparr>)) = []"
proof -
  have p: "parseInt ''4194305'' = Some 4194305"
    by (simp add: parseInt_def isWhiteSpace_def isDigit_def digitsValue_def digitValue_def)
  show ?thesis
    using p post_declared_length_over_limit [of "test_transport [SetOnMessage True, Start]"
      "\<lparr>headers = [''content-type'' \<mapsto> ''application/json'',
                  ''content-length'' \<mapsto> ''4194305''],
        body = encode ping\<rparr>" "''4194305''" 4194305 codec_platform]
    by (simp add: test_defs MAX_MSG_SIZE_def)
qed

text \<open>
  Claim C6 says that every POST handled while active whose content type is not a JSON media
  type gets status 415 without a call of \<open>onmessage\<close>. The handler tests only whether the
  header value contains \<open>application/json\<close>: a ping sent as
  \<open>text/plain; a=application/json\<close> is parsed, delivered to \<open>onmessage\<close> and answered with 202.
\<close>

theorem post_substring_type_counterexample:
  "isActive (test_transport [SetOnMessage True, Start]) \<and>
   status (response (handlePostMessage codec_platform (test_transport [SetOnMessage True, Start])
     \<lparr>headers = [''content-type'' \<mapsto> ''text/plain; a=application/json''],
      body = encode ping\<rparr>)) = 202 \<and>
   calls (transport_after (handlePostMessage codec_platform
     (test_transport [SetOnMessage True, Start])
     \<lparr>headers = [''content-type'' \<mapsto> ''text/plain; a=application/json''],
      body = encode ping\<rparr>)) = [OnMessage ping]"
  by (simp add: test_defs handlePostMessage_def process_body_def handleMessage_def
      invoke_onmessage_def parseInt_zero MAX_MSG_SIZE_def
      Request_json_encode [OF valid_ping] validate_message_json [OF valid_ping])

text \<open>
  Claim C6, amended: a POST handled while active whose content-type header value (the empty
  string when the header is absent) does not contain \<open>application/json\<close> gets status 415 with
  the value in the response text, and no other request gets 415; a POST to a transport that is
  not active gets status 503, and no other request gets 503. In both cases the body is not read
  and the transport is unchanged, so \<open>onmessage\<close> is not invoked.
\<close>

theorem post_wrong_type_or_inactive:
  "(\<not> isActive t \<or> \<not> streamController t \<longrightarrow>
      handlePostMessage P t req =
        \<lparr>response = \<lparr>bodyText = ''SSE connection not established'', status = 503\<rparr>,
         transport_after = t, bodyUsed = False\<rparr>) \<and>
   (isActive t \<and> streamController t \<and>
    \<not> String_includes (or_default (headers req ''content-type'') []) ''application/json'' \<longrightarrow>
      handlePostMessage P t req =
        \<lparr>response = \<lparr>bodyText = ''Invalid content type: ''
                       @ or_default (headers req ''content-type'') [], status = 415\<rparr>,
         transport_after = t, bodyUsed = False\<rparr>) \<and>
   (status (response (handlePostMessage P t req)) = 415 \<longleftrightarrow>
      isActive t \<and> streamController t \<and>
      \<not> String_includes (or_default (headers req ''content-type'') []) ''application/json'') \<and>
   (status (response (handlePostMessage P t req)) = 503 \<longleftrightarrow>
      \<not> isActive t \<or> \<not> streamController t)"
proof -
  have s: "status (response (process_body P t (body req))) = 202 \<or>
           status (response (process_body P t (body req))) = 400"
    by (rule process_body_status)
  show ?thesis
    using s by (auto simp: handlePostMessage_def Let_def)
qed

text \<open>
  A ping sent as \<open>text/plain\<close> and a ping sent without a content type, both to an active
  transport, and a ping sent before the start.
\<close>

theorem post_wrong_type_or_inactive_witness:
  "status (response (handlePostMessage codec_platform (test_transport [SetOnMessage True, Start])
     \<lparr>headers = [''content-type'' \<mapsto> ''text/plain''], body = encode ping\<rparr>)) = 415 \<and>
   calls (transport_after (handlePostMessage codec_platform
     (test_transport [SetOnMessage True, Start])
     \<lparr>headers = [''content-type'' \<mapsto> ''text/plain''], body = encode ping\<rparr>)) = [] \<and>
   status (response (handlePostMessage codec_platform (test_transport [SetOnMessage True, Start])
     \<lparr>headers = Map.empty, body = encode ping\<rparr>)) = 415 \<and>
   status (response (handlePostMessage codec_platform (test_transport [SetOnMessage True])
     (json_request (encode ping)))) = 503 \<and>
   calls (transport_after (handlePostMessage codec_platform (test_transport [SetOnMessage True])
     (json_request (encode ping)))) = []"
  using post_wrong_type_or_inactive [of "test_transport [SetOnMessage True, Start]" codec_platform
      "\<lparr>headers = [''content-type'' \<mapsto> ''text/plain''], body = encode ping\<rparr>"]
    post_wrong_type_or_inactive [of "test_transport [SetOnMessage True, Start]" codec_platform
      "\<lparr>headers = Map.empty, body = encode ping\<rparr>"]
    post_wrong_type_or_inactive [of "test_transport [SetOnMessage True]" codec_platform
      "json_request (encode ping)"]
  by (simp add: test_defs)

text \<open>
  Claim C10: the size limit is checked against the Content-Length header only. A missing header
  is read as \<open>0\<close>, and a header without a leading number gives NaN, which exceeds nothing. So
  a JSON request to an active transport whose header is absent, unparseable or at most 4 MiB
  has its body read and parsed, whatever the length of the body: the outcome is decided by
  \<open>request.json()\<close> on the whole body and by the validation of the parsed value. A parse error
  gives status 400 and one call of \<open>onerror\<close>, a valid message gives status 202 and is
  delivered to \<open>onmessage\<close>, and an invalid value gives status 400 and two calls of \<open>onerror\<close>.
\<close>

theorem post_size_check_reads_header_only:
  assumes "isActive t" and "streamController t"
    and "String_includes (or_default (headers req ''content-type'') []) ''application/json''"
    and "headers req ''content-length'' = None \<or>
         (\<exists>v. headers req ''content-length'' = Some v \<and>
              (parseInt v = None \<or> (\<exists>n. parseInt v = Some n \<and> n \<le> MAX_MSG_SIZE)))"
  shows "parseInt (or_default None ''0'') = Some 0 \<and>
         bodyUsed (handlePostMessage P t req) \<and>
         (status (response (handlePostMessage P t req)) = 202 \<or>
          status (response (handlePostMessage P t req)) = 400) \<and>
         handlePostMessage P t req = process_body P t (body req) \<and>
         handlePostMessage P t req =
           (case JSON_parse P (body req) of
              Inl e \<Rightarrow>
                \<lparr>response = \<lparr>bodyText = ''Error processing message: '' @ errorMessage e,
                              status = 400\<rparr>,
                 transport_after = invoke_onerror (toError e) t, bodyUsed = True\<rparr>
            | Inr raw \<Rightarrow>
                (case JSONRPCMessageSchema_parse P raw of
                   Inr m \<Rightarrow>
                     \<lparr>response = \<lparr>bodyText = ''Message processed'', status = 202\<rparr>,
                      transport_after = invoke_onmessage m t, bodyUsed = True\<rparr>
                 | Inl e \<Rightarrow>
                     \<lparr>response = \<lparr>bodyText = ''Error processing message: '' @ errorMessage e,
                                   status = 400\<rparr>,
                      transport_after = invoke_onerror (toError e) (invoke_onerror (toError e) t),
                      bodyUsed = True\<rparr>))"
proof -
  have zero: "\<not> exceeds (parseInt ''0'') MAX_MSG_SIZE"
    by (simp add: parseInt_zero MAX_MSG_SIZE_def)
  have ok: "\<not> exceeds (parseInt (or_default (headers req ''content-length'') ''0'')) MAX_MSG_SIZE"
    using assms(4)
  proof
    assume "headers req ''content-length'' = None"
    then show ?thesis using zero by simp
  next
    assume "\<exists>v. headers req ''content-length'' = Some v \<and>
              (parseInt v = None \<or> (\<exists>n. parseInt v = Some n \<and> n \<le> MAX_MSG_SIZE))"
    then obtain v where v: "headers req ''content-length'' = Some v"
      and p: "parseInt v = None \<or> (\<exists>n. parseInt v = Some n \<and> n \<le> MAX_MSG_SIZE)" by blast
    show ?thesis
    proof (cases "v = []")
      case True
      then show ?thesis using v zero by simp
    next
      case False
      then show ?thesis using v p by auto
    qed
  qed
  have pb: "handlePostMessage P t req = process_body P t (body req)"
    by (rule post_accepted [OF assms(1-3) ok])
  have st: "bodyUsed (handlePostMessage P t req) \<and>
         (status (response (handlePostMessage P t req)) = 202 \<or>
          status (response (handlePostMessage P t req)) = 400)"
    using process_body_status [of P t "body req"] process_body_bodyUsed [of P t "body req"]
    by (simp add: pb)
  have parsed: "process_body P t (body req) =
           (case JSON_parse P (body req) of
              Inl e \<Rightarrow>
                \<lparr>response = \<lparr>bodyText = ''Error processing message: '' @ errorMessage e,
                              status = 400\<rparr>,
                 transport_after = invoke_onerror (toError e) t, bodyUsed = True\<rparr>
            | Inr raw \<Rightarrow>
                (case JSONRPCMessageSchema_parse P raw of
                   Inr m \<Rightarrow>
                     \<lparr>response = \<lparr>bodyText = ''Message processed'', status = 202\<rparr>,
                      transport_after = invoke_onmessage m t, bodyUsed = True\<rparr>
                 | Inl e \<Rightarrow>
                     \<lparr>response = \<lparr>bodyText = ''Error processing message: '' @ errorMessage e,
                                   status = 400\<rparr>,
                      transport_after = invoke_onerror (toError e) (invoke_onerror (toError e) t),
                      bodyUsed = True\<rparr>))"
    by (simp add: process_body_def post_catch_def handleMessage_def Let_def toError_idem
        errorMessage_toError split: sum.splits)
  show ?thesis
    using pb st parsed by (simp add: parseInt_zero)
qed

text \<open>
  Two bodies longer than 4 MiB, each declared as 10 bytes: a ping whose method name has
  4 MiB and one letter is parsed whole and delivered to \<open>onmessage\<close>; 4 MiB and one letter
  without quotes are a syntax error.
\<close>

theorem post_size_check_reads_header_only_witness:
  "isActive (test_transport [SetOnMessage True, Start]) \<and>
   headers long_request ''content-length'' = Some ''10'' \<and>
   parseInt ''10'' = Some 10 \<and>
   4194305 \<le> length (body long_request) \<and>
   JSON_parse codec_platform (body long_request) = Inr (message_json long_ping) \<and>
   status (response (handlePostMessage codec_platform
     (test_transport [SetOnMessage True, Start]) long_request)) = 202 \<and>
   calls (transport_after (handlePostMessage codec_platform
     (test_transport [SetOnMessage True, Start]) long_request)) = [OnMessage long_ping] \<and>
   length (body understated_request) = 4194305 \<and>
   bodyUsed (handlePostMessage codec_platform (test_transport [SetOnMessage True, Start])
     understated_request) \<and>
   status (response (handlePostMessage codec_platform (test_transport [SetOnMessage True, Start])
     understated_request)) = 400"
proof -
  let ?T = "test_transport [SetOnMessage True, Start]"
  have p: "parseInt ''10'' = Some 10"
    by (simp add: parseInt_def isWhiteSpace_def isDigit_def digitsValue_def digitValue_def)
  have a: "isActive ?T \<and> streamController ?T \<and> onmessage ?T \<and> calls ?T = []"
    by (simp add: test_defs)
  have hl: "headers long_request ''content-length'' = None \<or>
         (\<exists>v. headers long_request ''content-length'' = Some v \<and>
              (parseInt v = None \<or> (\<exists>n. parseInt v = Some n \<and> n \<le> MAX_MSG_SIZE)))"
    by (simp add: long_request_def p MAX_MSG_SIZE_def)
  have cl: "String_includes (or_default (headers long_request ''content-type'') [])
      ''application/json''"
    by (simp add: long_request_def)
  have bl: "body long_request = encode long_ping"
    by (simp add: long_request_def)
  have len: "4194305 \<le> length (encode long_ping)"
    using length_encode_method [of long_ping long_method]
    by (simp add: long_ping_def long_method_def)
  have pl: "JSON_parse codec_platform (encode long_ping) = Inr (message_json long_ping)"
    using Request_json_encode [OF valid_long_ping] by (simp add: codec_platform_def)
  have vl: "JSONRPCMessageSchema_parse codec_platform (message_json long_ping) = Inr long_ping"
    using validate_message_json [OF valid_long_ping] by (simp add: codec_platform_def)
  have long: "handlePostMessage codec_platform ?T long_request =
      \<lparr>response = \<lparr>bodyText = ''Message processed'', status = 202\<rparr>,
       transport_after = invoke_onmessage long_ping ?T, bodyUsed = True\<rparr>"
  proof -
    have "handlePostMessage codec_platform ?T long_request =
        (case JSON_parse codec_platform (body long_request) of
           Inl e \<Rightarrow>
             \<lparr>response = \<lparr>bodyText = ''Error processing message: '' @ errorMessage e,
                           status = 400\<rparr>,
              transport_after = invoke_onerror (toError e) ?T, bodyUsed = True\<rparr>
         | Inr raw \<Rightarrow>
             (case JSONRPCMessageSchema_parse codec_platform raw of
                Inr m \<Rightarrow>
                  \<lparr>response = \<lparr>bodyText = ''Message processed'', status = 202\<rparr>,
                   transport_after = invoke_onmessage m ?T, bodyUsed = True\<rparr>
              | Inl e \<Rightarrow>
                  \<lparr>response = \<lparr>bodyText = ''Error processing message: '' @ errorMessage e,
                                status = 400\<rparr>,
                   transport_after = invoke_onerror (toError e) (invoke_onerror (toError e) ?T),
                   bodyUsed = True\<rparr>))"
      using post_size_check_reads_header_only [of ?T long_request codec_platform] a cl hl
      by blast
    then show ?thesis by (simp add: bl pl vl)
  qed
  have hu: "headers understated_request ''content-length'' = None \<or>
         (\<exists>v. headers understated_request ''content-length'' = Some v \<and>
              (parseInt v = None \<or> (\<exists>n. parseInt v = Some n \<and> n \<le> MAX_MSG_SIZE)))"
    by (simp add: understated_request_def p MAX_MSG_SIZE_def)
  have cu: "String_includes (or_default (headers understated_request ''content-type'') [])
      ''application/json''"
    by (simp add: understated_request_def)
  have bu: "body understated_request = replicate 4194305 (CHR ''a'')"
    by (simp add: understated_request_def)
  have pu: "JSON_parse codec_platform (replicate 4194305 (CHR ''a'')) = Inl JSONSyntaxError"
    by (simp add: codec_platform_def Request_json_letters)
  have short: "handlePostMessage codec_platform ?T understated_request =
      \<lparr>response = \<lparr>bodyText = ''Error processing message: '' @ errorMessage JSONSyntaxError,
                    status = 400\<rparr>,
       transport_after = invoke_onerror (toError JSONSyntaxError) ?T, bodyUsed = True\<rparr>"
  proof -
    have "handlePostMessage codec_platform ?T understated_request =
        (case JSON_parse codec_platform (body understated_request) of
           Inl e \<Rightarrow>
             \<lparr>response = \<lparr>bodyText = ''Error processing message: '' @ errorMessage e,
                           status = 400\<rparr>,
              transport_after = invoke_onerror (toError e) ?T, bodyUsed = True\<rparr>
         | Inr raw \<Rightarrow>
             (case JSONRPCMessageSchema_parse codec_platform raw of
                Inr m \<Rightarrow>
                  \<lparr>response = \<lparr>bodyText = ''Message processed'', status = 202\<rparr>,
                   transport_after = invoke_onmessage m ?T, bodyUsed = True\<rparr>
              | Inl e \<Rightarrow>
                  \<lparr>response = \<lparr>bodyText = ''Error processing message: '' @ errorMessage e,
                                status = 400\<rparr>,
                   transport_after = invoke_onerror (toError e) (invoke_onerror (toError e) ?T),
                   bodyUsed = True\<rparr>))"
      using post_size_check_reads_header_only [of ?T understated_request codec_platform] a cu hu
      by blast
    then show ?thesis by (simp add: bu pu)
  qed
  have hd: "headers long_request ''content-length'' = Some ''10''"
    by (simp add: long_request_def)
  show ?thesis
    using a p len pl long short hd
    by (simp add: bl bu invoke_onmessage_def)
qed

subsection \<open>The list of active servers\<close>

text \<open>
  Claim C7 says that registering a second session under an id that is already registered fails
  with DuplicateSessionError and leaves one entry for the id. The server has no such check:
  \<open>servers.push\<close> cannot fail, and two sessions with the same id give two entries.
\<close>

theorem register_duplicate_counterexample:
  "entries_for ''abc''
     (register (register [] \<lparr>objectId = 1, transportSessionId = ''abc''\<rparr>)
        \<lparr>objectId = 2, transportSessionId = ''abc''\<rparr>)
   = [\<lparr>objectId = 1, transportSessionId = ''abc''\<rparr>,
      \<lparr>objectId = 2, transportSessionId = ''abc''\<rparr>]"
  by (simp add: entries_for_def register_def)

text \<open>
  Claim C7, amended: registering a session always succeeds and adds one entry for its id,
  whether or not the id is already in the list; a lookup by id returns the entry registered
  first.
\<close>

theorem register_appends_without_check:
  "length (entries_for (transportSessionId server) (register servers server))
     = Suc (length (entries_for (transportSessionId server) servers)) \<and>
   lookup (register servers server) sid =
     (case lookup servers sid of
        Some first \<Rightarrow> Some first
      | None \<Rightarrow> if transportSessionId server = sid then Some server else None)"
  by (induction servers) (simp_all add: entries_for_def register_def lookup_def)

subsection \<open>The codec round trip\<close>

text \<open>
  Claim C8: for every valid JSON-RPC message \<open>m\<close>, decoding the encoded form gives \<open>m\<close> back.
  On the codec platform the serialisation that \<open>send\<close> uses gives a text that the body parse
  of \<open>handlePostMessage\<close> reads back as the JSON object of the message, and the validation
  that \<open>handleMessage\<close> uses gives the message back from that object; so the text that
  \<open>send\<close> puts on the stream, posted back as a body, is delivered to \<open>onmessage\<close> as \<open>m\<close>. A
  valid message has one of the three shapes, and its payloads are JSON values with distinct
  keys in every object.
\<close>

theorem codec_round_trip:
  assumes "valid_message m"
  shows "decode (encode m) = Inr m \<and>
         JSON_parse codec_platform (JSON_stringify codec_platform m) = Inr (message_json m) \<and>
         JSONRPCMessageSchema_parse codec_platform (message_json m) = Inr m \<and>
         process_body codec_platform t (JSON_stringify codec_platform m) =
           \<lparr>response = \<lparr>bodyText = ''Message processed'', status = 202\<rparr>,
            transport_after = invoke_onmessage m t, bodyUsed = True\<rparr>"
proof -
  have "parse_json (print_json (message_json m)) = Some (message_json m)"
    using assms by (simp add: parse_json_print message_json_wf)
  then have p: "Request_json (encode m) = Inr (message_json m)"
    by (simp add: Request_json_def encode_def)
  have v: "validate (message_json m) = Inr m"
    using assms by (rule validate_message_json)
  show ?thesis
    using p v by (simp add: decode_def codec_platform_def process_body_def handleMessage_def)
qed

text \<open>The request of the end-to-end example of the specification: \<open>add\<close> with two numbers.\<close>

theorem codec_round_trip_witness:
  \<open>valid_message
     \<lparr>msg_id = Some (JNumber 1), msg_method = Some ''add'',
      msg_params = Some (JObject [(''a'', JNumber 5), (''b'', JNumber 6)]),
      msg_result = None, msg_error = None\<rparr> \<and>
   decode (encode
     \<lparr>msg_id = Some (JNumber 1), msg_method = Some ''add'',
      msg_params = Some (JObject [(''a'', JNumber 5), (''b'', JNumber 6)]),
      msg_result = None, msg_error = None\<rparr>)
   = Inr \<lparr>msg_id = Some (JNumber 1), msg_method = Some ''add'',
          msg_params = Some (JObject [(''a'', JNumber 5), (''b'', JNumber 6)]),
          msg_result = None, msg_error = None\<rparr>\<close>
proof -
  have v: "valid_message
     \<lparr>msg_id = Some (JNumber 1), msg_method = Some ''add'',
      msg_params = Some (JObject [(''a'', JNumber 5), (''b'', JNumber 6)]),
      msg_result = None, msg_error = None\<rparr>"
    by (simp add: valid_message_def is_request_def)
  show ?thesis
    using v codec_round_trip [OF v] by simp
qed

end
